theory Spec2Isabelle
  imports Complex_Main
begin

section \<open>The run configuration\<close>

text \<open>
  \<^verbatim>\<open>args = parser.parse_args()\<close> of \<^verbatim>\<open>run_main.py\<close>: the fields of the
  namespace that the training loop and the export step read. The record is extensible, so
  a statement about an \<open>args_scheme\<close> holds for a namespace with all the other
  command-line fields as well. Floating-point values (the learning rate) are only copied
  by \<^verbatim>\<open>main\<close>, never computed on, so their type is a parameter \<open>'r\<close>.
  The integer fields are Python integers: \<^verbatim>\<open>argparse\<close> accepts negative ones.
\<close>

record 'r args =
  model :: string
  model_id :: string
  features :: string
  label_len :: int
  pred_len :: int
  output_attention :: bool
  itr :: int
  train_epochs :: int
  learning_rate :: 'r
  lradj :: string
  use_amp :: bool

text \<open>
  The namespace \<^verbatim>\<open>argparse\<close> builds from a command line that sets, of these fields,
  only the required \<^verbatim>\<open>--model\<close> and \<^verbatim>\<open>--model_id\<close>: every other one has the default
  of its \<^verbatim>\<open>add_argument\<close> line (lines 47-100).
\<close>

definition parse_args :: "string \<Rightarrow> string \<Rightarrow> rat args" where
  "parse_args m mid =
     \<lparr>model = m, model_id = mid, features = ''M'', label_len = 48, pred_len = 96,
      output_attention = False, itr = 1, train_epochs = 10, learning_rate = 1 / 10000,
      lradj = ''type1'', use_amp = False\<rparr>"

section \<open>Tensors and Python slices\<close>

text \<open>
  A batch tensor has the axes (batch, time, channel); it is a list of samples, a sample a
  list of time steps, a time step a list of channel values.
\<close>

type_synonym 'a tensor = "'a list list list"

text \<open>
  \<^verbatim>\<open>xs[a:]\<close> and \<^verbatim>\<open>xs[:b]\<close>: a negative bound counts from the end, and a bound
  outside the list is clamped (a slice never raises).
\<close>

definition slice_from :: "int \<Rightarrow> 'a list \<Rightarrow> 'a list" where
  "slice_from a xs =
     (let n = int (length xs);
          start = (if a < 0 then max (n + a) 0 else min a n)
      in drop (nat start) xs)"

definition slice_to :: "int \<Rightarrow> 'a list \<Rightarrow> 'a list" where
  "slice_to b xs =
     (let n = int (length xs);
          stop = (if b < 0 then max (n + b) 0 else min b n)
      in take (nat stop) xs)"

text \<open>\<^verbatim>\<open>t[:, a:, :]\<close> and \<^verbatim>\<open>t[:, :b, :]\<close>: the slice is taken on the time axis.\<close>

definition time_from :: "int \<Rightarrow> 'a tensor \<Rightarrow> 'a tensor" where
  "time_from a t = map (slice_from a) t"

definition time_to :: "int \<Rightarrow> 'a tensor \<Rightarrow> 'a tensor" where
  "time_to b t = map (slice_to b) t"

definition zeros_like :: "'a::zero tensor \<Rightarrow> 'a tensor" where
  "zeros_like t = map (map (map (\<lambda>_. 0))) t"

text \<open>
  \<^verbatim>\<open>torch.cat([u, v], dim=1)\<close> for two tensors with the same batch size (here both are
  slices of \<^verbatim>\<open>batch_y\<close>): sample by sample, the time steps of \<open>v\<close> follow those of
  \<open>u\<close>.
\<close>

definition cat_dim1 :: "'a tensor \<Rightarrow> 'a tensor \<Rightarrow> 'a tensor" where
  "cat_dim1 u v = map2 (@) u v"

text \<open>
  Lines 196-197:
  \<^verbatim>\<open>dec_inp = torch.zeros_like(batch_y[:, -args.pred_len:, :]).float()\<close>
  \<^verbatim>\<open>dec_inp = torch.cat([batch_y[:, :args.label_len, :], dec_inp], dim=1)\<close>
\<close>

definition dec_inp :: "('r, 'z) args_scheme \<Rightarrow> 'a::zero tensor \<Rightarrow> 'a tensor" where
  "dec_inp a batch_y =
     (let dec_inp0 = zeros_like (time_from (- pred_len a) batch_y)
      in cat_dim1 (time_to (label_len a) batch_y) dec_inp0)"

text \<open>
  Lines 206-207 and 213-214 (the same two lines in the mixed-precision branch and in the
  full-precision branch):
  \<^verbatim>\<open>f_dim = -1 if args.features == 'MS' else 0\<close>
  \<^verbatim>\<open>loss = criterion(outputs[:, -args.pred_len:, f_dim:], batch_y[:, -args.pred_len:, f_dim:])\<close>
\<close>

definition f_dim :: "('r, 'z) args_scheme \<Rightarrow> int" where
  "f_dim a = (if features a = ''MS'' then - 1 else 0)"

definition scored :: "('r, 'z) args_scheme \<Rightarrow> 'a tensor \<Rightarrow> 'a tensor" where
  "scored a t = map (map (slice_from (f_dim a))) (time_from (- pred_len a) t)"

definition batch_loss ::
  "('a tensor \<Rightarrow> 'a tensor \<Rightarrow> 'l) \<Rightarrow> ('r, 'z) args_scheme \<Rightarrow> 'a tensor \<Rightarrow> 'a tensor \<Rightarrow> 'l" where
  "batch_loss criterion a outputs batch_y =
     (if use_amp a then criterion (scored a outputs) (scored a batch_y)
      else criterion (scored a outputs) (scored a batch_y))"

text \<open>The last \<open>n\<close> elements of a list (all of it when it has fewer).\<close>

definition last_n :: "nat \<Rightarrow> 'a list \<Rightarrow> 'a list" where
  "last_n n xs = drop (length xs - n) xs"

section \<open>Processes of the distributed group\<close>

text \<open>
  Each process of the group runs \<^verbatim>\<open>main\<close> with its own \<^verbatim>\<open>Accelerator\<close>. The library
  numbers the processes of the whole group (\<open>process_index\<close>) and, separately, the
  processes of each machine (\<open>local_process_index\<close>); \<^verbatim>\<open>is_main_process\<close> tests the
  first number for zero and \<^verbatim>\<open>is_local_main_process\<close> the second.
\<close>

record process =
  process_index :: nat
  local_process_index :: nat

definition is_main_process :: "process \<Rightarrow> bool" where
  "is_main_process p = (process_index p = 0)"

definition is_local_main_process :: "process \<Rightarrow> bool" where
  "is_local_main_process p = (local_process_index p = 0)"

text \<open>The group started on \<open>machines\<close> machines with \<open>per_machine\<close> processes each.\<close>

definition launch :: "nat \<Rightarrow> nat \<Rightarrow> process list" where
  "launch machines per_machine =
     concat (map (\<lambda>m. map (\<lambda>l. \<lparr>process_index = m * per_machine + l, local_process_index = l\<rparr>)
                          [0..<per_machine])
                 [0..<machines])"

section \<open>Errors, events and the state of one process\<close>

datatype error =
  ValueError | AttributeError | ZeroDivisionError | RuntimeError | PicklingError | MlflowException

text \<open>
  The calls of \<^verbatim>\<open>main\<close> that the claims are about, in the order the process makes them.
  \<open>'r\<close> is the type of learning rates and \<open>'v\<close> that of parameter tensors.
\<close>

datatype ('r, 'v) event =
    StartRun
  | LogParams
  | Makedirs
  | OptimStep nat nat
  | AdjustLR nat 'r bool
  | SchedulerStep
  | LogMetrics nat
  | EarlyStopping nat
  | WaitForEveryone
  | LogStateDict "(string \<times> 'v) list"
  | NamedTemporaryFile
  | PickleDump
  | LogArtifact
  | RemoveTemp
  | DelFiles

text \<open>
  \<open>StartRun\<close>: lines 121-125; \<open>LogParams\<close>: line 131; \<open>Makedirs\<close>: line 153;
  \<open>OptimStep epoch i\<close>: the forward pass, the loss, the backward pass and
  \<^verbatim>\<open>model_optim.step()\<close> (or \<^verbatim>\<open>scaler.step(model_optim)\<close>) of batch \<open>i\<close>, lines 187-224;
  \<open>AdjustLR e r printout\<close>: a call \<^verbatim>\<open>adjust_learning_rate(..., e, args, printout)\<close> made
  while \<^verbatim>\<open>args.learning_rate\<close> is \<open>r\<close>; \<open>SchedulerStep\<close>: \<^verbatim>\<open>scheduler.step()\<close>;
  \<open>LogMetrics epoch\<close>: line 256; \<open>EarlyStopping epoch\<close>: line 259;
  \<open>WaitForEveryone\<close>: line 279; \<open>LogStateDict sd\<close>: line 290; the others: lines 298-306.
\<close>

record ('a, 'w, 'r, 'v) process_state =
  args_of :: 'a
  world :: 'w
  trace :: "('r, 'v) event list"

definition emit ::
  "('r, 'v) event \<Rightarrow> ('a, 'w, 'r, 'v) process_state \<Rightarrow> ('a, 'w, 'r, 'v) process_state" where
  "emit ev s = s\<lparr>trace := trace s @ [ev]\<rparr>"

section \<open>Model and scheduler selection\<close>

datatype model_kind = Autoformer | DLinear | TimeLLM

text \<open>Lines 140-147: the dispatch on \<^verbatim>\<open>args.model\<close>; any other name raises.\<close>

definition select_model :: "('r, 'z) args_scheme \<Rightarrow> error + model_kind" where
  "select_model a =
     (if model a = ''Autoformer'' then Inr Autoformer
      else if model a = ''DLinear'' then Inr DLinear
      else if model a = ''TimeLLM'' then Inr TimeLLM
      else Inl ValueError)"

datatype scheduler_kind = CosineAnnealingLR | OneCycleLR

text \<open>Lines 162-169: the dispatch on \<^verbatim>\<open>args.lradj\<close>; it has no raising branch.\<close>

definition select_scheduler :: "('r, 'z) args_scheme \<Rightarrow> scheduler_kind" where
  "select_scheduler a = (if lradj a = ''COS'' then CosineAnnealingLR else OneCycleLR)"

section \<open>The training loop\<close>

text \<open>
  What \<^verbatim>\<open>main\<close> calls but does not define: the model, the optimizer, the scheduler, the
  early-stopping monitor and the helpers of \<^verbatim>\<open>utils.tools\<close>. Their state is the
  \<open>world\<close> of the process, of an arbitrary type \<open>'w\<close>; each call is a function on
  it, and the theorems hold for every choice of these functions. The constructors run
  before the first epoch and may raise (\<^verbatim>\<open>optim.Adam\<close> on an empty parameter list,
  \<^verbatim>\<open>OneCycleLR\<close> on a step count it cannot divide), so they return an error or the new
  world; the calls inside the epoch loop are taken to return.
  \<^item> \<open>train_steps\<close>: \<^verbatim>\<open>len(train_loader)\<close>;
  \<^item> \<open>build_model\<close>: lines 141-145, the constructor of the selected model;
  \<^item> \<open>build_optimizer\<close>: lines 155-178, the constructors of the early-stopping monitor,
    of \<^verbatim>\<open>optim.Adam\<close> over the trainable parameters and of the selected scheduler, the
    loss and metric lookups, \<^verbatim>\<open>accelerator.prepare\<close> and the gradient scaler;
  \<^item> \<open>backward_step epoch i\<close>: lines 187-224 for batch \<open>i\<close>;
  \<^item> \<open>adjust_learning_rate epoch args printout\<close>: the helper of that name;
  \<^item> \<open>scheduler_step\<close>: \<^verbatim>\<open>scheduler.step()\<close>;
  \<^item> \<open>current_lr\<close>: \<^verbatim>\<open>model_optim.param_groups[0]['lr']\<close>;
  \<^item> \<open>vali\<close>: the two \<^verbatim>\<open>vali(...)\<close> calls of lines 241-242;
  \<^item> \<open>early_stopping\<close>: the call of line 259, and \<open>early_stop\<close> the flag read on
    line 260.
\<close>

record ('w, 'a, 'r) trainer =
  train_steps :: nat
  build_model :: "model_kind \<Rightarrow> 'a \<Rightarrow> 'w \<Rightarrow> error + 'w"
  build_optimizer :: "scheduler_kind \<Rightarrow> 'a \<Rightarrow> 'w \<Rightarrow> error + 'w"
  backward_step :: "nat \<Rightarrow> nat \<Rightarrow> 'a \<Rightarrow> 'w \<Rightarrow> 'w"
  adjust_learning_rate :: "nat \<Rightarrow> 'a \<Rightarrow> bool \<Rightarrow> 'w \<Rightarrow> 'w"
  scheduler_step :: "'w \<Rightarrow> 'w"
  current_lr :: "'w \<Rightarrow> 'r"
  vali :: "'a \<Rightarrow> 'w \<Rightarrow> 'w"
  early_stopping :: "'w \<Rightarrow> 'w"
  early_stop :: "'w \<Rightarrow> bool"

text \<open>
  Lines 187-229, one batch: the optimizer step, and for \<^verbatim>\<open>args.lradj == 'TST'\<close> the
  call of \<^verbatim>\<open>adjust_learning_rate\<close> (with \<^verbatim>\<open>epoch + 1\<close>) followed by
  \<^verbatim>\<open>scheduler.step()\<close>.
\<close>

definition train_batch ::
  "('w, ('r, 'z) args_scheme, 'r) trainer \<Rightarrow> nat \<Rightarrow> nat \<Rightarrow>
   (('r, 'z) args_scheme, 'w, 'r, 'v) process_state \<Rightarrow> (('r, 'z) args_scheme, 'w, 'r, 'v) process_state" where
  "train_batch T epoch i s =
     (let s1 = emit (OptimStep epoch i)
                 (s\<lparr>world := backward_step T epoch i (args_of s) (world s)\<rparr>)
      in if lradj (args_of s1) = ''TST''
         then (let s2 = emit (AdjustLR (epoch + 1) (learning_rate (args_of s1)) False)
                          (s1\<lparr>world := adjust_learning_rate T (epoch + 1) (args_of s1) False (world s1)\<rparr>)
               in emit SchedulerStep (s2\<lparr>world := scheduler_step T (world s2)\<rparr>))
         else s1)"

text \<open>Line 186: the batches of one epoch, in order.\<close>

definition train_batches ::
  "('w, ('r, 'z) args_scheme, 'r) trainer \<Rightarrow> nat \<Rightarrow>
   (('r, 'z) args_scheme, 'w, 'r, 'v) process_state \<Rightarrow> (('r, 'z) args_scheme, 'w, 'r, 'v) process_state" where
  "train_batches T epoch s = fold (train_batch T epoch) [0..<train_steps T] s"

text \<open>
  Lines 181-259: the batches of the epoch, the two evaluations, the metric export of the
  gated process, and the early-stopping call.
\<close>

definition run_epoch ::
  "('w, ('r, 'z) args_scheme, 'r) trainer \<Rightarrow> process \<Rightarrow> nat \<Rightarrow>
   (('r, 'z) args_scheme, 'w, 'r, 'v) process_state \<Rightarrow> (('r, 'z) args_scheme, 'w, 'r, 'v) process_state" where
  "run_epoch T p epoch s =
     (let s1 = train_batches T epoch s;
          s2 = s1\<lparr>world := vali T (args_of s1) (world s1)\<rparr>;
          s3 = (if is_local_main_process p then emit (LogMetrics epoch) s2 else s2)
      in emit (EarlyStopping epoch) (s3\<lparr>world := early_stopping T (world s3)\<rparr>))"

text \<open>
  Lines 265-275, the learning-rate adjustment at the end of an epoch that did not stop:
  nothing for \<open>TST\<close>, \<^verbatim>\<open>scheduler.step()\<close> for \<open>COS\<close>, and otherwise, after
  \<^verbatim>\<open>args.learning_rate = model_optim.param_groups[0]['lr']\<close> in epoch 0, the call of
  \<^verbatim>\<open>adjust_learning_rate\<close>.
\<close>

definition lr_adjustment ::
  "('w, ('r, 'z) args_scheme, 'r) trainer \<Rightarrow> nat \<Rightarrow>
   (('r, 'z) args_scheme, 'w, 'r, 'v) process_state \<Rightarrow> (('r, 'z) args_scheme, 'w, 'r, 'v) process_state" where
  "lr_adjustment T epoch s =
     (if lradj (args_of s) \<noteq> ''TST'' then
        (if lradj (args_of s) = ''COS'' then emit SchedulerStep (s\<lparr>world := scheduler_step T (world s)\<rparr>)
         else
           (let s1 = (if epoch = 0
                      then s\<lparr>args_of := (args_of s)\<lparr>learning_rate := current_lr T (world s)\<rparr>\<rparr>
                      else s)
            in emit (AdjustLR (epoch + 1) (learning_rate (args_of s1)) True)
                 (s1\<lparr>world := adjust_learning_rate T (epoch + 1) (args_of s1) True (world s1)\<rparr>)))
      else s)"

text \<open>
  Line 180, \<^verbatim>\<open>for epoch in range(args.train_epochs)\<close>, over the epochs still to run; the
  \<^verbatim>\<open>break\<close> of line 262 leaves the loop before the learning-rate adjustment.
\<close>

fun epochs_loop ::
  "('w, ('r, 'z) args_scheme, 'r) trainer \<Rightarrow> process \<Rightarrow> nat list \<Rightarrow>
   (('r, 'z) args_scheme, 'w, 'r, 'v) process_state \<Rightarrow> (('r, 'z) args_scheme, 'w, 'r, 'v) process_state" where
  "epochs_loop T p [] s = s"
| "epochs_loop T p (epoch # rest) s =
     (let s1 = run_epoch T p epoch s
      in if early_stop T (world s1) then s1
         else epochs_loop T p rest (lr_adjustment T epoch s1))"

section \<open>The artifact export\<close>

text \<open>
  A module as \<^verbatim>\<open>state_dict()\<close> and \<^verbatim>\<open>get_parameter\<close> see it: its named members in the
  order of the state mapping, each a parameter (with its tensor and its
  \<^verbatim>\<open>requires_grad\<close> flag) or a persistent buffer. The names of a module are distinct.
\<close>

record 'v parameter =
  data :: 'v
  requires_grad :: bool

datatype 'v member = Param "'v parameter" | Buffer 'v

type_synonym 'v module = "(string \<times> 'v member) list"

definition state_dict :: "'v module \<Rightarrow> (string \<times> 'v) list" where
  "state_dict m = map (\<lambda>(k, e). (k, case e of Param q \<Rightarrow> data q | Buffer v \<Rightarrow> v)) m"

text \<open>\<^verbatim>\<open>get_parameter(k)\<close> raises \<^verbatim>\<open>AttributeError\<close> unless \<open>k\<close> names a parameter.\<close>

definition get_parameter :: "'v module \<Rightarrow> string \<Rightarrow> error + 'v parameter" where
  "get_parameter m k =
     (case map_of m k of
        Some (Param q) \<Rightarrow> Inr q
      | Some (Buffer v) \<Rightarrow> Inl AttributeError
      | None \<Rightarrow> Inl AttributeError)"

text \<open>
  Lines 285-288, the dictionary comprehension over the items of the state mapping: the
  first key that \<^verbatim>\<open>get_parameter\<close> rejects ends it with the exception.
\<close>

fun trainable_items :: "'v module \<Rightarrow> (string \<times> 'v) list \<Rightarrow> error + (string \<times> 'v) list" where
  "trainable_items m [] = Inr []"
| "trainable_items m ((k, v) # kvs) =
     (case get_parameter m k of
        Inl e \<Rightarrow> Inl e
      | Inr q \<Rightarrow>
          (case trainable_items m kvs of
             Inl e \<Rightarrow> Inl e
           | Inr rest \<Rightarrow> Inr (if requires_grad q then (k, v) # rest else rest)))"

definition export_state_dict :: "'v module \<Rightarrow> error + (string \<times> 'v) list" where
  "export_state_dict m = trainable_items m (state_dict m)"

text \<open>
  What the export step calls but does not define:
  \<^item> \<open>unwrap_model\<close>: \<^verbatim>\<open>accelerator.unwrap_model(model)\<close>;
  \<^item> \<open>train_scaler\<close>: \<^verbatim>\<open>train_data.scaler if hasattr(train_data, 'scaler') else None\<close>;
  \<^item> \<open>pickle_dump\<close> and \<open>log_artifact\<close>: the exception, if any, that
    \<^verbatim>\<open>pickle.dump(scaler, tmp)\<close> and \<^verbatim>\<open>mlflow.log_artifact(tmp.name, "scaler.pkl")\<close> raise;
  \<^item> \<open>path_exists\<close>: \<^verbatim>\<open>os.path.exists(temp_checkpoint_path)\<close>.
\<close>

record ('w, 'v, 'k) exporter =
  unwrap_model :: "'w \<Rightarrow> 'v module"
  train_scaler :: "'w \<Rightarrow> 'k option"
  pickle_dump :: "'k \<Rightarrow> error option"
  log_artifact :: "'w \<Rightarrow> error option"
  path_exists :: "'w \<Rightarrow> bool"

text \<open>
  Lines 296-302. The temporary file is created with \<^verbatim>\<open>delete=False\<close>; an exception
  inside the \<^verbatim>\<open>with\<close> block closes the file and propagates, so
  \<^verbatim>\<open>os.remove(tmp.name)\<close>, the statement after the block, is not reached.
\<close>

definition save_scaler ::
  "('w, 'v, 'k) exporter \<Rightarrow> ('a, 'w, 'r, 'v) process_state \<Rightarrow>
   error option \<times> ('a, 'w, 'r, 'v) process_state" where
  "save_scaler E s =
     (case train_scaler E (world s) of
        None \<Rightarrow> (None, s)
      | Some scaler \<Rightarrow>
          (let s1 = emit NamedTemporaryFile s
           in case pickle_dump E scaler of
                Some e \<Rightarrow> (Some e, s1)
              | None \<Rightarrow>
                  (let s2 = emit PickleDump s1
                   in case log_artifact E (world s2) of
                        Some e \<Rightarrow> (Some e, s2)
                      | None \<Rightarrow> (None, emit RemoveTemp (emit LogArtifact s2)))))"

text \<open>Lines 282-306, the body of the gated export block.\<close>

definition export_artifacts ::
  "('w, 'v, 'k) exporter \<Rightarrow> ('a, 'w, 'r, 'v) process_state \<Rightarrow>
   error option \<times> ('a, 'w, 'r, 'v) process_state" where
  "export_artifacts E s =
     (case export_state_dict (unwrap_model E (world s)) of
        Inl e \<Rightarrow> (Some e, s)
      | Inr sd \<Rightarrow>
          (let s1 = emit (LogStateDict sd) s
           in case save_scaler E s1 of
                (Some e, s2) \<Rightarrow> (Some e, s2)
              | (None, s2) \<Rightarrow> (None, if path_exists E (world s2) then emit DelFiles s2 else s2)))"

section \<open>One experiment and the whole run\<close>

text \<open>
  Lines 136-306, the body of \<^verbatim>\<open>for ii in range(args.itr)\<close>: the model selection and
  the model constructor, the checkpoint directory, the constructors of optimizer and
  scheduler, the epoch loop over \<^verbatim>\<open>range(args.train_epochs)\<close>, the barrier, and the
  gated export. An exception of the selection or of a constructor ends the experiment
  where it is raised, before the epoch loop. (The three \<^verbatim>\<open>data_provider\<close> calls of lines
  136-138 are taken to return.)
\<close>

definition run_experiment ::
  "('w, ('r, 'z) args_scheme, 'r) trainer \<Rightarrow> ('w, 'v, 'k) exporter \<Rightarrow> process \<Rightarrow>
   (('r, 'z) args_scheme, 'w, 'r, 'v) process_state \<Rightarrow>
   error option \<times> (('r, 'z) args_scheme, 'w, 'r, 'v) process_state" where
  "run_experiment T E p s =
     (case select_model (args_of s) of
        Inl e \<Rightarrow> (Some e, s)
      | Inr kind \<Rightarrow>
          (case build_model T kind (args_of s) (world s) of
             Inl e \<Rightarrow> (Some e, s)
           | Inr w1 \<Rightarrow>
               (let s1 = (if is_local_main_process p then emit Makedirs (s\<lparr>world := w1\<rparr>)
                          else s\<lparr>world := w1\<rparr>)
                in case build_optimizer T (select_scheduler (args_of s1)) (args_of s1) (world s1) of
                     Inl e \<Rightarrow> (Some e, s1)
                   | Inr w2 \<Rightarrow>
                       (let s2 = s1\<lparr>world := w2\<rparr>;
                            s3 = epochs_loop T p [0..<nat (train_epochs (args_of s2))] s2;
                            s4 = emit WaitForEveryone s3
                        in if is_local_main_process p then export_artifacts E s4 else (None, s4)))))"

fun run_experiments ::
  "('w, ('r, 'z) args_scheme, 'r) trainer \<Rightarrow> ('w, 'v, 'k) exporter \<Rightarrow> process \<Rightarrow> nat list \<Rightarrow>
   (('r, 'z) args_scheme, 'w, 'r, 'v) process_state \<Rightarrow>
   error option \<times> (('r, 'z) args_scheme, 'w, 'r, 'v) process_state" where
  "run_experiments T E p [] s = (None, s)"
| "run_experiments T E p (ii # rest) s =
     (case run_experiment T E p s of
        (Some e, s1) \<Rightarrow> (Some e, s1)
      | (None, s1) \<Rightarrow> run_experiments T E p rest s1)"

text \<open>
  Lines 116-306 on one process: the tracking run is opened by the main process of the
  group, the parameters are logged by the main process of each machine, and the
  experiments follow.
\<close>

definition main ::
  "('w, ('r, 'z) args_scheme, 'r) trainer \<Rightarrow> ('w, 'v, 'k) exporter \<Rightarrow> process \<Rightarrow>
   ('r, 'z) args_scheme \<Rightarrow> 'w \<Rightarrow>
   error option \<times> (('r, 'z) args_scheme, 'w, 'r, 'v) process_state" where
  "main T E p a w =
     (let s0 = \<lparr>args_of = a, world = w, trace = []\<rparr>;
          s1 = (if is_main_process p then emit StartRun s0 else s0);
          s2 = (if is_local_main_process p then emit LogParams s1 else s1)
      in run_experiments T E p [0..<nat (itr a)] s2)"

section \<open>Observations on a trace\<close>

text \<open>The base rates with which \<^verbatim>\<open>adjust_learning_rate\<close> was called, in call order.\<close>

definition adjust_rates :: "('r, 'v) event list \<Rightarrow> 'r list" where
  "adjust_rates evs = concat (map (\<lambda>ev. case ev of AdjustLR e r printout \<Rightarrow> [r] | _ \<Rightarrow> []) evs)"

text \<open>The optimizer steps of a trace, as (epoch, batch) pairs.\<close>

definition optim_steps :: "('r, 'v) event list \<Rightarrow> (nat \<times> nat) list" where
  "optim_steps evs = concat (map (\<lambda>ev. case ev of OptimStep epoch i \<Rightarrow> [(epoch, i)] | _ \<Rightarrow> []) evs)"

section \<open>Test doubles\<close>

text \<open>
  Concrete stand-ins for the external collaborators, used where a theorem is evaluated on
  an input: a module with two trainable parameters and a frozen one, and an exporter whose
  scaler, serialization outcome and upload outcome are given.
\<close>

definition stub_module :: "int module" where
  "stub_module =
     [(''mapping.weight'', Param \<lparr>data = 7, requires_grad = True\<rparr>),
      (''llm.weight'', Param \<lparr>data = 8, requires_grad = False\<rparr>),
      (''head.bias'', Param \<lparr>data = 9, requires_grad = True\<rparr>)]"

definition stub_exporter ::
  "'v module \<Rightarrow> 'k option \<Rightarrow> error option \<Rightarrow> error option \<Rightarrow> ('w, 'v, 'k) exporter" where
  "stub_exporter m scaler dump upload =
     \<lparr>unwrap_model = (\<lambda>w. m), train_scaler = (\<lambda>w. scaler), pickle_dump = (\<lambda>k. dump),
      log_artifact = (\<lambda>w. upload), path_exists = (\<lambda>w. True)\<rparr>"

text \<open>A module with a persistent buffer in its state mapping.\<close>

definition buffered_module :: "int module" where
  "buffered_module =
     [(''embedding.pe'', Buffer 3),
      (''projection.weight'', Param \<lparr>data = 4, requires_grad = True\<rparr>)]"

text \<open>
  A training environment for evaluation: the constructors succeed; the optimizer starts
  at the configured rate divided by 25 under the one-cycle scheduler (its initial rate)
  and at the configured rate under cosine annealing; \<^verbatim>\<open>adjust_learning_rate\<close> halves the rate it is given;
  the monitor signals the stop at its \<open>patience\<close>-th observation.
\<close>

record stub_world =
  optimizer_lr :: rat
  scheduler_steps :: nat
  observations :: nat

definition stub_trainer :: "nat \<Rightarrow> nat \<Rightarrow> (stub_world, rat args, rat) trainer" where
  "stub_trainer steps patience =
     \<lparr>train_steps = steps,
      build_model = (\<lambda>kind a w. Inr w),
      build_optimizer = (\<lambda>sched a w.
         Inr \<lparr>optimizer_lr = (case sched of OneCycleLR \<Rightarrow> learning_rate a / 25
                                            | CosineAnnealingLR \<Rightarrow> learning_rate a),
              scheduler_steps = 0, observations = 0\<rparr>),
      backward_step = (\<lambda>epoch i a w. w),
      adjust_learning_rate = (\<lambda>epoch a printout w. w\<lparr>optimizer_lr := learning_rate a / 2\<rparr>),
      scheduler_step = (\<lambda>w. w\<lparr>scheduler_steps := scheduler_steps w + 1\<rparr>),
      current_lr = optimizer_lr,
      vali = (\<lambda>a w. w),
      early_stopping = (\<lambda>w. w\<lparr>observations := observations w + 1\<rparr>),
      early_stop = (\<lambda>w. patience \<le> observations w)\<rparr>"

text \<open>
  The state of the main process of a default run before its first epoch, under the stub
  trainer: the one-cycle scheduler has set the optimizer to the configured rate divided
  by 25.
\<close>

definition stub_state :: "(rat args, stub_world, rat, int) process_state" where
  "stub_state =
     \<lparr>args_of = parse_args ''TimeLLM'' ''run'',
      world = \<lparr>optimizer_lr = 1 / 250000, scheduler_steps = 0, observations = 0\<rparr>,
      trace = []\<rparr>"

definition main_process :: process where
  "main_process = \<lparr>process_index = 0, local_process_index = 0\<rparr>"

text \<open>
  A whole run on one process under the stubs: two batches per epoch, no early stop within
  five epochs, the stub module and no scaler.
\<close>

definition stub_run ::
  "rat args \<Rightarrow> process \<Rightarrow> error option \<times> (rat args, stub_world, rat, int) process_state" where
  "stub_run a p =
     main (stub_trainer 2 5) (stub_exporter stub_module (None :: unit option) None None) p a
       \<lparr>optimizer_lr = 0, scheduler_steps = 0, observations = 0\<rparr>"

section \<open>Decoder input and scored window\<close>

lemma slice_from_neg:
  "0 < p \<Longrightarrow> p \<le> int (length xs) \<Longrightarrow> slice_from (- p) xs = last_n (nat p) xs"
  by (simp add: slice_from_def last_n_def Let_def nat_diff_distrib' max_def)

lemma slice_from_0: "slice_from 0 xs = xs"
  by (simp add: slice_from_def)

lemma slice_from_last: "slice_from (- 1) xs = last_n 1 xs"
  by (cases "xs = []") (simp_all add: slice_from_def last_n_def Let_def max_def nat_diff_distrib')

lemma slice_to_nonneg:
  "0 \<le> l \<Longrightarrow> l \<le> int (length xs) \<Longrightarrow> slice_to l xs = take (nat l) xs"
  by (simp add: slice_to_def Let_def min_def)

lemma length_slice_from_neg:
  "0 \<le> p \<Longrightarrow> p \<le> int (length xs) \<Longrightarrow> nat p \<le> length (slice_from (- p) xs)"
  by (cases "p = 0") (auto simp: slice_from_def Let_def max_def)

lemma dec_inp_sample:
  assumes "b < length batch_y"
  shows "dec_inp a batch_y ! b =
           slice_to (label_len a) (batch_y ! b) @
           map (map (\<lambda>_. 0)) (slice_from (- pred_len a) (batch_y ! b))"
  using assms
  by (simp add: dec_inp_def cat_dim1_def time_from_def time_to_def zeros_like_def Let_def)

lemma length_dec_inp: "length (dec_inp a batch_y) = length batch_y"
  by (simp add: dec_inp_def cat_dim1_def time_from_def time_to_def zeros_like_def Let_def)

text \<open>
  C3. For a training batch whose target \<open>batch_y\<close> has at least \<open>label_len\<close> and at
  least \<open>pred_len\<close> time steps (the data sets yield \<open>label_len + pred_len\<close> of them) and
  non-negative lengths, the decoder input handed to the model has one sample per sample
  of the batch, and in every sample its first \<open>label_len\<close> time steps are the first
  \<open>label_len\<close> time steps of the target, there are at least \<open>pred_len\<close> further steps,
  and every value in its last \<open>pred_len\<close> time steps is zero.
\<close>

theorem dec_inp_label_prefix_zero_suffix:
  assumes "0 \<le> label_len a" and "0 \<le> pred_len a"
    and "\<forall>s \<in> set (batch_y :: 'a::zero tensor).
           label_len a \<le> int (length s) \<and> pred_len a \<le> int (length s)"
  shows "length (dec_inp a batch_y) = length batch_y \<and>
         (\<forall>b < length batch_y.
            take (nat (label_len a)) (dec_inp a batch_y ! b) = take (nat (label_len a)) (batch_y ! b) \<and>
            nat (label_len a) + nat (pred_len a) \<le> length (dec_inp a batch_y ! b) \<and>
            (\<forall>step \<in> set (last_n (nat (pred_len a)) (dec_inp a batch_y ! b)). \<forall>v \<in> set step. v = 0))"
proof (intro conjI allI impI)
  show "length (dec_inp a batch_y) = length batch_y" by (rule length_dec_inp)
next
  fix b assume b: "b < length batch_y"
  define s where "s = batch_y ! b"
  define z where "z = map (map (\<lambda>_. 0::'a)) (slice_from (- pred_len a) s)"
  from b assms(3) have len: "label_len a \<le> int (length s)" "pred_len a \<le> int (length s)"
    by (simp_all add: s_def)
  have d: "dec_inp a batch_y ! b = take (nat (label_len a)) s @ z"
    using dec_inp_sample [OF b, of a] slice_to_nonneg [OF assms(1) len(1)]
    by (simp add: s_def z_def)
  have lt: "length (take (nat (label_len a)) s) = nat (label_len a)"
    using len(1) assms(1) by simp
  have lz: "nat (pred_len a) \<le> length z"
    using length_slice_from_neg [OF assms(2) len(2)] by (simp add: z_def)
  show "take (nat (label_len a)) (dec_inp a batch_y ! b) = take (nat (label_len a)) (batch_y ! b)"
    using lt by (simp add: d s_def)
  show "nat (label_len a) + nat (pred_len a) \<le> length (dec_inp a batch_y ! b)"
    using lt lz by (simp add: d)
  have "last_n (nat (pred_len a)) (take (nat (label_len a)) s @ z) = last_n (nat (pred_len a)) z"
    using lz lt by (simp add: last_n_def)
  then have "set (last_n (nat (pred_len a)) (dec_inp a batch_y ! b)) \<subseteq> set z"
    by (simp add: d last_n_def set_drop_subset)
  then show "\<forall>step \<in> set (last_n (nat (pred_len a)) (dec_inp a batch_y ! b)). \<forall>v \<in> set step. v = 0"
    by (auto simp: z_def)
qed

text \<open>
  Outside these bounds the slices clamp instead of raising. In particular
  \<^verbatim>\<open>batch_y[:, -0:, :]\<close> is all of \<^verbatim>\<open>batch_y\<close>: for \<open>pred_len = 0\<close> the zero block has a
  step for every step of the target, and the scored window is every time step.
\<close>

lemma dec_inp_pred_len_0:
  assumes "pred_len a = 0" and "b < length batch_y"
  shows "dec_inp a batch_y ! b =
           slice_to (label_len a) (batch_y ! b) @ map (map (\<lambda>_. 0)) (batch_y ! b)"
  using assms by (simp add: dec_inp_sample slice_from_0)

lemma scored_pred_len_0:
  "pred_len a = 0 \<Longrightarrow> scored a t = map (map (slice_from (f_dim a))) t"
  by (simp add: scored_def time_from_def slice_from_0)

text \<open>
  The decoder input of a batch of one sample with three time steps of two channels, for
  \<open>label_len = 1\<close> and \<open>pred_len = 2\<close>.
\<close>

theorem dec_inp_label_prefix_zero_suffix_witness:
  "dec_inp ((parse_args ''TimeLLM'' ''run'')\<lparr>label_len := 1, pred_len := 2\<rparr>)
       [[[1, 2], [3, 4], [5, 6 :: int]]] = [[[1, 2], [0, 0], [0, 0]]] \<and>
   take (nat 1) (dec_inp ((parse_args ''TimeLLM'' ''run'')\<lparr>label_len := 1, pred_len := 2\<rparr>)
       [[[1, 2], [3, 4], [5, 6 :: int]]] ! 0) = take (nat 1) ([[[1, 2], [3, 4], [5, 6 :: int]]] ! 0)"
proof -
  define a where "a = (parse_args ''TimeLLM'' ''run'')\<lparr>label_len := 1, pred_len := 2\<rparr>"
  define y where "y = [[[1, 2], [3, 4], [5, 6 :: int]]]"
  have h1: "0 \<le> label_len a" and h2: "0 \<le> pred_len a"
    by (simp_all add: a_def parse_args_def)
  have h3: "\<forall>s \<in> set y. label_len a \<le> int (length s) \<and> pred_len a \<le> int (length s)"
    by (simp add: a_def y_def parse_args_def)
  have v: "dec_inp a y = [[[1, 2], [0, 0], [0, 0]]]"
    by (simp add: a_def y_def parse_args_def dec_inp_def cat_dim1_def time_from_def time_to_def
        zeros_like_def slice_from_def slice_to_def)
  from dec_inp_label_prefix_zero_suffix [OF h1 h2 h3]
  have "take (nat (label_len a)) (dec_inp a y ! 0) = take (nat (label_len a)) (y ! 0)"
    by (simp add: y_def)
  then have "take (nat 1) (dec_inp a y ! 0) = take (nat 1) (y ! 0)"
    by (simp add: a_def parse_args_def)
  with v show ?thesis unfolding a_def y_def by simp
qed

lemma scored_sample:
  assumes "0 < pred_len a" and "pred_len a \<le> int (length s)"
  shows "map (slice_from (f_dim a)) (slice_from (- pred_len a) s) =
         map (\<lambda>step. if features a = ''MS'' then last_n 1 step else step)
           (last_n (nat (pred_len a)) s)"
  using slice_from_neg [OF assms] by (simp add: f_dim_def slice_from_last slice_from_0)

lemma scored_window:
  assumes "0 < pred_len a" and "\<forall>s \<in> set t. pred_len a \<le> int (length s)"
  shows "scored a t =
         map (\<lambda>s. map (\<lambda>step. if features a = ''MS'' then last_n 1 step else step)
                  (last_n (nat (pred_len a)) s)) t"
  using assms by (simp add: scored_def time_from_def scored_sample)

text \<open>
  C4. For a training batch with \<open>pred_len > 0\<close> whose model output and target both have
  at least \<open>pred_len\<close> time steps, the two tensors handed to the loss function are, sample
  by sample, exactly the last \<open>pred_len\<close> time steps of the output and of the target; in
  each of those steps only the last channel is kept when \<open>features\<close> is \<open>MS\<close>, and every
  channel is kept for any other setting. Both precision branches pass the same slices.
\<close>

theorem loss_scores_last_pred_len_steps:
  assumes "0 < pred_len a"
    and "\<forall>s \<in> set outputs. pred_len a \<le> int (length s)"
    and "\<forall>s \<in> set batch_y. pred_len a \<le> int (length s)"
  shows "batch_loss criterion a outputs batch_y =
         criterion
           (map (\<lambda>s. map (\<lambda>step. if features a = ''MS'' then last_n 1 step else step)
                    (last_n (nat (pred_len a)) s)) outputs)
           (map (\<lambda>s. map (\<lambda>step. if features a = ''MS'' then last_n 1 step else step)
                    (last_n (nat (pred_len a)) s)) batch_y)"
  using scored_window [OF assms(1,2)] scored_window [OF assms(1,3)]
  by (simp add: batch_loss_def)

text \<open>
  An \<open>MS\<close> run with \<open>pred_len = 2\<close>: of three output steps and four target steps, the
  loss (here the pair of its arguments) sees the last two, and of their two channels the
  last one.
\<close>

theorem loss_scores_last_pred_len_steps_witness:
  "batch_loss Pair ((parse_args ''TimeLLM'' ''run'')\<lparr>features := ''MS'', pred_len := 2\<rparr>)
       [[[1, 2], [3, 4], [5, 6 :: int]]] [[[10, 20], [30, 40], [50, 60], [70, 80]]] =
     ([[[4], [6]]], [[[60], [80]]])"
proof -
  define a where "a = (parse_args ''TimeLLM'' ''run'')\<lparr>features := ''MS'', pred_len := 2\<rparr>"
  have h1: "0 < pred_len a" by (simp add: a_def parse_args_def)
  have h2: "\<forall>s \<in> set [[[1, 2], [3, 4], [5, 6 :: int]]]. pred_len a \<le> int (length s)"
    by (simp add: a_def parse_args_def)
  have h3: "\<forall>s \<in> set [[[10, 20], [30, 40], [50, 60], [70, 80 :: int]]]. pred_len a \<le> int (length s)"
    by (simp add: a_def parse_args_def)
  show ?thesis
    unfolding a_def [symmetric]
    using loss_scores_last_pred_len_steps [OF h1 h2 h3, of Pair]
    by (simp add: a_def parse_args_def last_n_def)
qed

section \<open>The checkpoint filter\<close>

lemma trainable_items_ok:
  "(\<exists>r. trainable_items m kvs = Inr r) \<longleftrightarrow> (\<forall>k \<in> set (map fst kvs). \<exists>q. get_parameter m k = Inr q)"
  by (induction kvs) (auto split: sum.splits)

lemma trainable_items_filter:
  "trainable_items m kvs = Inr r \<Longrightarrow>
   r = filter (\<lambda>(k, v). \<exists>q. get_parameter m k = Inr q \<and> requires_grad q) kvs"
  by (induction kvs arbitrary: r) (auto split: sum.splits if_splits)

lemma trainable_items_error:
  "trainable_items m kvs = Inl e \<Longrightarrow> e = AttributeError"
  by (induction kvs) (auto simp: get_parameter_def split: sum.splits option.splits member.splits)

lemma get_parameter_Inr:
  "distinct (map fst m) \<Longrightarrow> get_parameter m k = Inr q \<longleftrightarrow> (k, Param q) \<in> set m"
proof -
  assume d: "distinct (map fst m)"
  have "get_parameter m k = Inr q \<longleftrightarrow> map_of m k = Some (Param q)"
    by (auto simp: get_parameter_def split: option.splits member.splits)
  with d show ?thesis by simp
qed

lemma in_state_dict:
  "(k, v) \<in> set (state_dict m) \<longleftrightarrow>
   (\<exists>e. (k, e) \<in> set m \<and> v = (case e of Param q \<Rightarrow> data q | Buffer b \<Rightarrow> b))"
  by (auto simp: state_dict_def)

lemma map_fst_state_dict: "map fst (state_dict m) = map fst m"
  by (induction m) (auto simp: state_dict_def)

lemma export_state_dict_ok:
  "(\<exists>sd. export_state_dict m = Inr sd) \<longleftrightarrow> (\<forall>k \<in> set (map fst (state_dict m)). \<exists>q. get_parameter m k = Inr q)"
  unfolding export_state_dict_def by (rule trainable_items_ok)

lemma map_of_export:
  assumes d: "distinct (map fst m)" and e: "export_state_dict m = Inr sd"
  shows "map_of sd k = Some v \<longleftrightarrow> (\<exists>q. (k, Param q) \<in> set m \<and> requires_grad q \<and> data q = v)"
proof -
  let ?P = "\<lambda>(k, v). \<exists>q. get_parameter m k = Inr q \<and> requires_grad q"
  have sd: "sd = filter ?P (state_dict m)"
    using e unfolding export_state_dict_def by (rule trainable_items_filter)
  have dsd: "distinct (map fst (state_dict m))" using d by (simp add: map_fst_state_dict)
  then have "distinct (map fst sd)" unfolding sd by (simp add: distinct_map_filter)
  then have "map_of sd k = Some v \<longleftrightarrow> (k, v) \<in> set sd" by simp
  also have "\<dots> \<longleftrightarrow> (k, v) \<in> set (state_dict m) \<and> (\<exists>q. get_parameter m k = Inr q \<and> requires_grad q)"
    unfolding sd by auto
  also have "\<dots> \<longleftrightarrow> (\<exists>q. (k, Param q) \<in> set m \<and> requires_grad q \<and> data q = v)"
  proof
    assume "(k, v) \<in> set (state_dict m) \<and> (\<exists>q. get_parameter m k = Inr q \<and> requires_grad q)"
    then obtain e q where e: "(k, e) \<in> set m" "v = (case e of Param q \<Rightarrow> data q | Buffer b \<Rightarrow> b)"
      and q: "(k, Param q) \<in> set m" "requires_grad q"
      using d by (auto simp: in_state_dict get_parameter_Inr)
    from d e(1) q(1) have "e = Param q" by (rule eq_key_imp_eq_value)
    with e q show "\<exists>q. (k, Param q) \<in> set m \<and> requires_grad q \<and> data q = v" by auto
  next
    assume "\<exists>q. (k, Param q) \<in> set m \<and> requires_grad q \<and> data q = v"
    then obtain q where q: "(k, Param q) \<in> set m" "requires_grad q" "data q = v" by blast
    then have "(k, v) \<in> set (state_dict m)" by (auto simp: in_state_dict intro!: exI [of _ "Param q"])
    with q d show "(k, v) \<in> set (state_dict m) \<and> (\<exists>q. get_parameter m k = Inr q \<and> requires_grad q)"
      by (auto simp: get_parameter_Inr)
  qed
  finally show ?thesis .
qed

text \<open>
  C5. For a module with distinct member names: when every member of the state mapping is
  a parameter the export produces a checkpoint, and every checkpoint the export produces
  consists of entries of the state mapping, maps a name to a value exactly when the module
  has a parameter of that name with \<open>requires_grad\<close> set whose tensor is that value, and
  has no entry for the name of a frozen parameter.
\<close>

theorem export_state_dict_trainable_only:
  assumes "distinct (map fst m)"
  shows "((\<forall>e \<in> set (map snd m). \<exists>q. e = Param q) \<longrightarrow> (\<exists>sd. export_state_dict m = Inr sd)) \<and>
         (\<forall>sd. export_state_dict m = Inr sd \<longrightarrow>
            set sd \<subseteq> set (state_dict m) \<and>
            (\<forall>k v. map_of sd k = Some v \<longleftrightarrow>
               (\<exists>q. (k, Param q) \<in> set m \<and> requires_grad q \<and> data q = v)) \<and>
            (\<forall>k q. (k, Param q) \<in> set m \<and> \<not> requires_grad q \<longrightarrow> map_of sd k = None))"
proof (intro conjI allI impI)
  assume all: "\<forall>e \<in> set (map snd m). \<exists>q. e = Param q"
  have "\<forall>k \<in> set (map fst (state_dict m)). \<exists>q. get_parameter m k = Inr q"
  proof
    fix k assume "k \<in> set (map fst (state_dict m))"
    then obtain e where e: "(k, e) \<in> set m" by (auto simp: map_fst_state_dict)
    with all obtain q where "e = Param q" by force
    with e assms show "\<exists>q. get_parameter m k = Inr q" by (auto simp: get_parameter_Inr)
  qed
  then show "\<exists>sd. export_state_dict m = Inr sd" by (simp only: export_state_dict_ok)
next
  fix sd assume e: "export_state_dict m = Inr sd"
  from e show "set sd \<subseteq> set (state_dict m)"
    unfolding export_state_dict_def by (auto dest!: trainable_items_filter)
  fix k v
  show "map_of sd k = Some v \<longleftrightarrow> (\<exists>q. (k, Param q) \<in> set m \<and> requires_grad q \<and> data q = v)"
    by (rule map_of_export [OF assms e])
next
  fix sd k q assume e: "export_state_dict m = Inr sd"
    and kq: "(k, Param q) \<in> set m \<and> \<not> requires_grad q"
  show "map_of sd k = None"
  proof (cases "map_of sd k")
    case (Some v)
    then obtain q' where q': "(k, Param q') \<in> set m" "requires_grad q'"
      using map_of_export [OF assms e, of k v] by blast
    from assms q'(1) kq have "Param q' = Param q" by (auto dest: eq_key_imp_eq_value)
    with q'(2) kq show ?thesis by simp
  qed simp
qed

text \<open>
  The stub module: the two trainable parameters are exported with their values, the frozen
  one is absent.
\<close>

lemma export_state_dict_stub:
  "export_state_dict stub_module = Inr [(''mapping.weight'', 7), (''head.bias'', 9)]"
  by (simp add: export_state_dict_def state_dict_def stub_module_def get_parameter_def)

theorem export_state_dict_trainable_only_witness:
  "export_state_dict stub_module = Inr [(''mapping.weight'', 7), (''head.bias'', 9)] \<and>
   map_of [(''mapping.weight'', 7), (''head.bias'', 9 :: int)] ''llm.weight'' = None \<and>
   set [(''mapping.weight'', 7), (''head.bias'', 9)] \<subseteq> set (state_dict stub_module)"
proof -
  have d: "distinct (map fst stub_module)" by (simp add: stub_module_def)
  have m: "(''llm.weight'', Param \<lparr>data = 8, requires_grad = False\<rparr>) \<in> set stub_module"
    by (simp add: stub_module_def)
  note inst = export_state_dict_trainable_only [OF d, THEN conjunct2, THEN spec, THEN mp,
      OF export_state_dict_stub]
  from inst have sub: "set [(''mapping.weight'', 7), (''head.bias'', 9)] \<subseteq> set (state_dict stub_module)"
    by (rule conjunct1)
  from inst [THEN conjunct2, THEN conjunct2, THEN spec, THEN spec, THEN mp, OF conjI, OF m]
  have "map_of [(''mapping.weight'', 7), (''head.bias'', 9 :: int)] ''llm.weight'' = None"
    by simp
  with sub export_state_dict_stub show ?thesis by (intro conjI)
qed

lemma export_state_dict_Buffer:
  assumes "distinct (map fst m)" and "(k, Buffer b) \<in> set m"
  shows "export_state_dict m = Inl AttributeError"
proof (cases "export_state_dict m")
  case (Inl e)
  then show ?thesis unfolding export_state_dict_def by (auto dest: trainable_items_error)
next
  case (Inr sd)
  then have "\<forall>k \<in> set (map fst (state_dict m)). \<exists>q. get_parameter m k = Inr q"
    using export_state_dict_ok [of m] by blast
  moreover from assms(2) have "k \<in> set (map fst (state_dict m))"
    by (force simp: map_fst_state_dict)
  ultimately obtain q where "get_parameter m k = Inr q" by blast
  with assms(1) have "(k, Param q) \<in> set m" by (simp add: get_parameter_Inr)
  with assms have "Buffer b = Param q" by (auto dest: eq_key_imp_eq_value)
  then show ?thesis by simp
qed

text \<open>
  C10. The export filter looks every key of the state mapping up as a parameter. For a
  module with distinct member names, the export produces a checkpoint exactly when every
  key of the state mapping names a parameter; and when some member is a buffer, the lookup
  of its name raises \<open>AttributeError\<close>, so does the filter, and the export block ends with
  that exception before anything is handed to the tracking sink.
\<close>

theorem export_raises_on_non_parameter_entry:
  assumes "distinct (map fst m)"
  shows "((\<exists>sd. export_state_dict m = Inr sd) \<longleftrightarrow>
            (\<forall>k \<in> set (map fst (state_dict m)). \<exists>q. get_parameter m k = Inr q)) \<and>
         (\<forall>k b. (k, Buffer b) \<in> set m \<longrightarrow>
            get_parameter m k = Inl AttributeError \<and>
            export_state_dict m = Inl AttributeError \<and>
            (\<forall>E s. unwrap_model E (world s) = m \<longrightarrow>
               export_artifacts E s = (Some AttributeError, s)))"
proof (intro conjI allI impI)
  show "(\<exists>sd. export_state_dict m = Inr sd) \<longleftrightarrow>
        (\<forall>k \<in> set (map fst (state_dict m)). \<exists>q. get_parameter m k = Inr q)"
    by (rule export_state_dict_ok)
next
  fix k b assume kb: "(k, Buffer b) \<in> set m"
  with assms have "map_of m k = Some (Buffer b)" by simp
  then show "get_parameter m k = Inl AttributeError" by (simp add: get_parameter_def)
  show e: "export_state_dict m = Inl AttributeError"
    using assms kb by (rule export_state_dict_Buffer)
  fix E :: "('w, 'a, 'k) exporter" and s :: "('s, 'w, 'r, 'a) process_state"
  assume "unwrap_model E (world s) = m"
  with e show "export_artifacts E s = (Some AttributeError, s)"
    by (simp add: export_artifacts_def)
qed

text \<open>A module whose first state entry is a buffer: the export raises and logs nothing.\<close>

theorem export_raises_on_non_parameter_entry_witness:
  "export_state_dict buffered_module = Inl AttributeError \<and>
   get_parameter buffered_module ''embedding.pe'' = Inl AttributeError \<and>
   export_artifacts (stub_exporter buffered_module (None :: unit option) None None)
       \<lparr>args_of = parse_args ''Autoformer'' ''run'', world = (), trace = [WaitForEveryone :: (rat, int) event]\<rparr> =
     (Some AttributeError,
      \<lparr>args_of = parse_args ''Autoformer'' ''run'', world = (), trace = [WaitForEveryone]\<rparr>)"
proof -
  have d: "distinct (map fst buffered_module)" by (simp add: buffered_module_def)
  have b: "(''embedding.pe'', Buffer 3) \<in> set buffered_module" by (simp add: buffered_module_def)
  note inst = export_raises_on_non_parameter_entry [OF d, THEN conjunct2, THEN spec, THEN spec,
      THEN mp, OF b]
  have u: "unwrap_model (stub_exporter buffered_module (None :: unit option) None None)
             (world \<lparr>args_of = parse_args ''Autoformer'' ''run'', world = (),
                     trace = [WaitForEveryone :: (rat, int) event]\<rparr>) = buffered_module"
    by (simp add: stub_exporter_def)
  from inst [THEN conjunct2, THEN conjunct2, THEN spec, THEN spec, THEN mp, OF u]
    inst [THEN conjunct1] inst [THEN conjunct2, THEN conjunct1]
  show ?thesis by (intro conjI)
qed

section \<open>The scaler upload\<close>

text \<open>
  C8, as the code has it. When the filtered state mapping was built and the training data
  has a scaler: if serializing the scaler fails, or serializing succeeds and the upload
  fails, the checkpoint has been handed to the tracking sink before (it is the first call
  of the block), the export block ends with that exception, and none of the later calls of
  the block is made; if both succeed the temporary file is removed and the temporary
  checkpoint directory, if it exists, is cleaned up.
\<close>

theorem scaler_failure_after_checkpoint_upload:
  assumes "export_state_dict (unwrap_model E (world s)) = Inr sd"
    and "train_scaler E (world s) = Some k"
  shows "(pickle_dump E k = Some e \<longrightarrow>
            export_artifacts E s =
              (Some e, s\<lparr>trace := trace s @ [LogStateDict sd, NamedTemporaryFile]\<rparr>)) \<and>
         (pickle_dump E k = None \<and> log_artifact E (world s) = Some e \<longrightarrow>
            export_artifacts E s =
              (Some e, s\<lparr>trace := trace s @ [LogStateDict sd, NamedTemporaryFile, PickleDump]\<rparr>)) \<and>
         (pickle_dump E k = None \<and> log_artifact E (world s) = None \<longrightarrow>
            export_artifacts E s =
              (None, s\<lparr>trace := trace s @
                 [LogStateDict sd, NamedTemporaryFile, PickleDump, LogArtifact, RemoveTemp] @
                 (if path_exists E (world s) then [DelFiles] else [])\<rparr>))"
  using assms by (simp add: export_artifacts_def save_scaler_def emit_def)

text \<open>The upload of the scaler fails: the checkpoint was logged, the exception propagates.\<close>

theorem scaler_failure_after_checkpoint_upload_witness:
  "export_artifacts (stub_exporter stub_module (Some ()) None (Some MlflowException))
       \<lparr>args_of = parse_args ''TimeLLM'' ''run'', world = (), trace = [WaitForEveryone :: (rat, int) event]\<rparr> =
     (Some MlflowException,
      \<lparr>args_of = parse_args ''TimeLLM'' ''run'', world = (),
       trace = [WaitForEveryone, LogStateDict [(''mapping.weight'', 7), (''head.bias'', 9)],
                NamedTemporaryFile, PickleDump]\<rparr>)"
proof -
  let ?E = "stub_exporter stub_module (Some ()) None (Some MlflowException)"
  let ?s = "\<lparr>args_of = parse_args ''TimeLLM'' ''run'', world = (),
             trace = [WaitForEveryone :: (rat, int) event]\<rparr>"
  have a: "export_state_dict (unwrap_model ?E (world ?s)) =
             Inr [(''mapping.weight'', 7), (''head.bias'', 9)]"
    by (simp add: stub_exporter_def export_state_dict_stub)
  have b: "train_scaler ?E (world ?s) = Some ()" by (simp add: stub_exporter_def)
  have c: "pickle_dump ?E () = None \<and> log_artifact ?E (world ?s) = Some MlflowException"
    by (simp add: stub_exporter_def)
  from scaler_failure_after_checkpoint_upload [OF a b, THEN conjunct2, THEN conjunct1, THEN mp, OF c]
  show ?thesis by simp
qed

text \<open>
  Serializing the scaler fails while the temporary checkpoint directory exists: the export
  block raises, and neither the removal of the temporary file nor the cleanup of the
  directory is among the calls made.
\<close>

theorem scaler_failure_aborts_export_counterexample:
  "export_artifacts (stub_exporter stub_module (Some ()) (Some PicklingError) None)
       \<lparr>args_of = parse_args ''TimeLLM'' ''run'', world = (), trace = [WaitForEveryone :: (rat, int) event]\<rparr> =
     (Some PicklingError,
      \<lparr>args_of = parse_args ''TimeLLM'' ''run'', world = (),
       trace = [WaitForEveryone, LogStateDict [(''mapping.weight'', 7), (''head.bias'', 9)],
                NamedTemporaryFile]\<rparr>) \<and>
   path_exists (stub_exporter stub_module (Some ()) (Some PicklingError) None :: (unit, int, unit) exporter) () \<and>
   RemoveTemp \<notin> set [WaitForEveryone, LogStateDict [(''mapping.weight'', 7), (''head.bias'', 9 :: int)],
                NamedTemporaryFile :: (rat, int) event] \<and>
   DelFiles \<notin> set [WaitForEveryone, LogStateDict [(''mapping.weight'', 7), (''head.bias'', 9 :: int)],
                NamedTemporaryFile :: (rat, int) event]"
  by (simp add: export_artifacts_def save_scaler_def emit_def stub_exporter_def export_state_dict_stub)

section \<open>The training loop: events and configuration\<close>

lemma emit_simps:
  "args_of (emit ev s) = args_of s" "world (emit ev s) = world s"
  "trace (emit ev s) = trace s @ [ev]"
  by (simp_all add: emit_def)

lemma train_batch_args: "args_of (train_batch T epoch i s) = args_of s"
  by (simp add: train_batch_def Let_def emit_simps)

lemma train_batch_trace:
  "trace (train_batch T epoch i s) =
     trace s @ OptimStep epoch i #
       (if lradj (args_of s) = ''TST''
        then [AdjustLR (epoch + 1) (learning_rate (args_of s)) False, SchedulerStep] else [])"
  by (simp add: train_batch_def Let_def emit_simps)

lemma fold_train_batch_args: "args_of (fold (train_batch T epoch) js s) = args_of s"
  by (induction js arbitrary: s) (simp_all add: train_batch_args)

lemma fold_train_batch_trace:
  "trace (fold (train_batch T epoch) js s) =
     trace s @ concat (map (\<lambda>i. OptimStep epoch i #
       (if lradj (args_of s) = ''TST''
        then [AdjustLR (epoch + 1) (learning_rate (args_of s)) False, SchedulerStep] else [])) js)"
  by (induction js arbitrary: s) (simp_all add: train_batch_args train_batch_trace)

lemma train_batches_args: "args_of (train_batches T epoch s) = args_of s"
  by (simp add: train_batches_def fold_train_batch_args)

lemma train_batches_trace:
  "trace (train_batches T epoch s) =
     trace s @ concat (map (\<lambda>i. OptimStep epoch i #
       (if lradj (args_of s) = ''TST''
        then [AdjustLR (epoch + 1) (learning_rate (args_of s)) False, SchedulerStep] else []))
       [0..<train_steps T])"
  by (simp add: train_batches_def fold_train_batch_trace)

lemma run_epoch_args: "args_of (run_epoch T p epoch s) = args_of s"
  by (simp add: run_epoch_def Let_def emit_simps train_batches_args)

lemma run_epoch_trace:
  "trace (run_epoch T p epoch s) =
     trace (train_batches T epoch s) @
     (if is_local_main_process p then [LogMetrics epoch] else []) @ [EarlyStopping epoch]"
  by (simp add: run_epoch_def Let_def emit_simps)

lemma lr_adjustment_args:
  "args_of (lr_adjustment T epoch s) =
     (if lradj (args_of s) \<noteq> ''TST'' \<and> lradj (args_of s) \<noteq> ''COS'' \<and> epoch = 0
      then (args_of s)\<lparr>learning_rate := current_lr T (world s)\<rparr> else args_of s)"
  by (simp add: lr_adjustment_def Let_def emit_simps)

lemma lr_adjustment_trace:
  "trace (lr_adjustment T epoch s) =
     trace s @
     (if lradj (args_of s) = ''TST'' then []
      else if lradj (args_of s) = ''COS'' then [SchedulerStep]
      else [AdjustLR (epoch + 1) (learning_rate (args_of (lr_adjustment T epoch s))) True])"
  by (simp add: lr_adjustment_def Let_def emit_simps)

lemma lr_adjustment_lradj: "lradj (args_of (lr_adjustment T epoch s)) = lradj (args_of s)"
  by (simp add: lr_adjustment_args)

lemma epochs_loop_lradj: "lradj (args_of (epochs_loop T p es s)) = lradj (args_of s)"
  by (induction es arbitrary: s) (simp_all add: Let_def run_epoch_args lr_adjustment_lradj)

lemma epochs_loop_args_but_lr:
  "(args_of (epochs_loop T p es s))\<lparr>learning_rate := learning_rate (args_of s)\<rparr> = args_of s"
proof (induction es arbitrary: s)
  case Nil
  show ?case by simp
next
  case (Cons epoch es)
  let ?s1 = "run_epoch T p epoch s"
  let ?s2 = "lr_adjustment T epoch ?s1"
  show ?case
  proof (cases "early_stop T (world ?s1)")
    case True
    then show ?thesis by (simp add: Let_def run_epoch_args)
  next
    case False
    have "(args_of (epochs_loop T p es ?s2))\<lparr>learning_rate := learning_rate (args_of s)\<rparr> =
          ((args_of (epochs_loop T p es ?s2))\<lparr>learning_rate := learning_rate (args_of ?s2)\<rparr>)
            \<lparr>learning_rate := learning_rate (args_of s)\<rparr>"
      by simp
    also have "\<dots> = (args_of ?s2)\<lparr>learning_rate := learning_rate (args_of s)\<rparr>"
      by (simp only: Cons.IH)
    also have "\<dots> = args_of s"
      by (simp add: lr_adjustment_args run_epoch_args)
    finally show ?thesis using False by (simp add: Let_def)
  qed
qed

lemma epochs_loop_args_fixed:
  "lradj (args_of s) = ''TST'' \<or> lradj (args_of s) = ''COS'' \<or> 0 \<notin> set es \<Longrightarrow>
   args_of (epochs_loop T p es s) = args_of s"
proof (induction es arbitrary: s)
  case Nil
  show ?case by simp
next
  case (Cons epoch es)
  let ?s1 = "run_epoch T p epoch s"
  let ?s2 = "lr_adjustment T epoch ?s1"
  from Cons.prems have a2: "args_of ?s2 = args_of s"
    by (auto simp: lr_adjustment_args run_epoch_args)
  with Cons.prems have "args_of (epochs_loop T p es ?s2) = args_of ?s2"
    by (intro Cons.IH) auto
  with a2 show ?case by (simp add: Let_def run_epoch_args)
qed

section \<open>The base rate of the step-decay policies\<close>

lemma adjust_rates_append: "adjust_rates (xs @ ys) = adjust_rates xs @ adjust_rates ys"
  by (simp add: adjust_rates_def)

lemma adjust_rates_simps:
  "adjust_rates [] = []"
  "adjust_rates [AdjustLR e r b] = [r]"
  "adjust_rates [LogMetrics e] = []"
  "adjust_rates [EarlyStopping e] = []"
  by (simp_all add: adjust_rates_def)

lemma adjust_rates_optim_steps: "adjust_rates (map (OptimStep epoch) js) = []"
  by (induction js) (simp_all add: adjust_rates_def)

lemma run_epoch_adjust_rates:
  "lradj (args_of s) \<noteq> ''TST'' \<Longrightarrow>
   adjust_rates (trace (run_epoch T p epoch s)) = adjust_rates (trace s)"
  by (simp add: run_epoch_trace train_batches_trace adjust_rates_append adjust_rates_simps
      adjust_rates_optim_steps)

lemma later_epochs_adjust_rates:
  assumes "lradj (args_of s) \<noteq> ''TST''" and "lradj (args_of s) \<noteq> ''COS''" and "0 \<notin> set es"
  shows "\<exists>k \<le> length es.
           adjust_rates (trace (epochs_loop T p es s)) =
             adjust_rates (trace s) @ replicate k (learning_rate (args_of s))"
  using assms
proof (induction es arbitrary: s)
  case Nil
  show ?case by simp
next
  case (Cons epoch es)
  let ?s1 = "run_epoch T p epoch s"
  let ?s2 = "lr_adjustment T epoch ?s1"
  have r1: "adjust_rates (trace ?s1) = adjust_rates (trace s)"
    using Cons.prems(1) by (rule run_epoch_adjust_rates)
  show ?case
  proof (cases "early_stop T (world ?s1)")
    case True
    with r1 have "adjust_rates (trace (epochs_loop T p (epoch # es) s)) =
                  adjust_rates (trace s) @ replicate 0 (learning_rate (args_of s))"
      by (simp add: Let_def)
    then show ?thesis by blast
  next
    case False
    from Cons.prems have e: "epoch \<noteq> 0" by auto
    with Cons.prems have a2: "args_of ?s2 = args_of s"
      by (simp add: lr_adjustment_args run_epoch_args)
    have r2: "adjust_rates (trace ?s2) = adjust_rates (trace s) @ [learning_rate (args_of s)]"
      using Cons.prems(1,2) a2
      by (simp add: lr_adjustment_trace run_epoch_args adjust_rates_append adjust_rates_simps r1)
    from Cons.prems a2 have "\<exists>k \<le> length es.
           adjust_rates (trace (epochs_loop T p es ?s2)) =
             adjust_rates (trace ?s2) @ replicate k (learning_rate (args_of ?s2))"
      by (intro Cons.IH) auto
    then obtain k where k: "k \<le> length es"
      "adjust_rates (trace (epochs_loop T p es ?s2)) =
         adjust_rates (trace s) @ replicate (Suc k) (learning_rate (args_of s))"
      by (auto simp: r2 a2 replicate_app_Cons_same)
    from k(2) False have "adjust_rates (trace (epochs_loop T p (epoch # es) s)) =
         adjust_rates (trace s) @ replicate (Suc k) (learning_rate (args_of s))"
      by (simp add: Let_def)
    moreover from k(1) have "Suc k \<le> length (epoch # es)" by simp
    ultimately show ?thesis by blast
  qed
qed

text \<open>
  C9. For a run whose \<open>lradj\<close> is neither \<open>TST\<close> nor \<open>COS\<close> (the step-decay policies,
  adjusted once per epoch), let \<open>r0\<close> be the optimizer's rate read at the end of epoch 0,
  after that epoch's early-stopping call. Every call of \<^verbatim>\<open>adjust_learning_rate\<close> the epoch
  loop makes, from the one at the end of epoch 0 on, is made with
  \<^verbatim>\<open>args.learning_rate\<close> equal to \<open>r0\<close>; and when epoch 0 runs and does not stop early,
  there is such a call and the configuration ends with \<open>r0\<close> as its learning rate.
\<close>

theorem step_decay_base_rate_captured:
  assumes "lradj (args_of s) \<noteq> ''TST''" and "lradj (args_of s) \<noteq> ''COS''"
  shows "\<exists>k \<le> n.
           adjust_rates (trace (epochs_loop T p [0..<n] s)) =
             adjust_rates (trace s) @ replicate k (current_lr T (world (run_epoch T p 0 s))) \<and>
           (0 < n \<and> \<not> early_stop T (world (run_epoch T p 0 s)) \<longrightarrow>
              0 < k \<and>
              learning_rate (args_of (epochs_loop T p [0..<n] s)) =
                current_lr T (world (run_epoch T p 0 s)))"
proof (cases "0 < n \<and> \<not> early_stop T (world (run_epoch T p 0 s))")
  case False
  have "adjust_rates (trace (epochs_loop T p [0..<n] s)) = adjust_rates (trace s)"
  proof (cases n)
    case 0
    then show ?thesis by simp
  next
    case (Suc m)
    with False have "early_stop T (world (run_epoch T p 0 s))" by simp
    then show ?thesis
      using assms(1) by (simp add: Suc upt_conv_Cons Let_def run_epoch_adjust_rates del: upt_Suc)
  qed
  then have "adjust_rates (trace (epochs_loop T p [0..<n] s)) =
             adjust_rates (trace s) @ replicate 0 (current_lr T (world (run_epoch T p 0 s)))"
    by simp
  with False show ?thesis by blast
next
  case True
  let ?s1 = "run_epoch T p 0 s"
  let ?s2 = "lr_adjustment T 0 ?s1"
  let ?r0 = "current_lr T (world ?s1)"
  from True have n: "[0..<n] = 0 # [1..<n]" by (simp add: upt_conv_Cons)
  from True have loop: "epochs_loop T p [0..<n] s = epochs_loop T p [1..<n] ?s2"
    by (simp add: n Let_def del: upt_Suc)
  from assms have a2: "args_of ?s2 = (args_of s)\<lparr>learning_rate := ?r0\<rparr>"
    by (simp add: lr_adjustment_args run_epoch_args)
  have r2: "adjust_rates (trace ?s2) = adjust_rates (trace s) @ [?r0]"
    using assms a2
    by (simp add: lr_adjustment_trace run_epoch_args adjust_rates_append adjust_rates_simps
        run_epoch_adjust_rates)
  from assms a2 have "\<exists>k \<le> length [1..<n].
           adjust_rates (trace (epochs_loop T p [1..<n] ?s2)) =
             adjust_rates (trace ?s2) @ replicate k (learning_rate (args_of ?s2))"
    by (intro later_epochs_adjust_rates) auto
  then obtain k where k: "k \<le> n - 1"
      "adjust_rates (trace (epochs_loop T p [0..<n] s)) =
         adjust_rates (trace s) @ replicate (Suc k) ?r0"
    by (auto simp: r2 a2 loop replicate_app_Cons_same)
  have "args_of (epochs_loop T p [1..<n] ?s2) = args_of ?s2"
    by (rule epochs_loop_args_fixed) simp
  then have lr: "learning_rate (args_of (epochs_loop T p [0..<n] s)) = ?r0"
    by (simp add: loop a2)
  from k(1) True have "Suc k \<le> n" by arith
  with k(2) lr show ?thesis by blast
qed

text \<open>
  Three epochs of the default policy: the optimizer's rate at the end of epoch 0 is
  \<open>1 / 250000\<close>, not the configured \<open>1 / 10000\<close>; all three adjustments are called with
  it, although the optimizer's own rate has moved on by then.
\<close>

theorem step_decay_base_rate_captured_witness:
  "learning_rate (args_of (epochs_loop (stub_trainer 2 5) main_process [0..<3] stub_state)) = 1 / 250000 \<and>
   adjust_rates (trace (epochs_loop (stub_trainer 2 5) main_process [0..<3] stub_state)) =
     [1 / 250000, 1 / 250000, 1 / 250000] \<and>
   optimizer_lr (world (epochs_loop (stub_trainer 2 5) main_process [0..<3] stub_state)) = 1 / 500000"
proof -
  let ?T = "stub_trainer 2 5"
  have h1: "lradj (args_of stub_state) \<noteq> ''TST''" and h2: "lradj (args_of stub_state) \<noteq> ''COS''"
    by (simp_all add: stub_state_def parse_args_def)
  have r0: "current_lr ?T (world (run_epoch ?T main_process 0 stub_state)) = 1 / 250000"
    by code_simp
  have go: "0 < (3::nat) \<and> \<not> early_stop ?T (world (run_epoch ?T main_process 0 stub_state))"
    by code_simp
  from step_decay_base_rate_captured [OF h1 h2, of 3 ?T main_process] go
  have "learning_rate (args_of (epochs_loop ?T main_process [0..<3] stub_state)) =
          current_lr ?T (world (run_epoch ?T main_process 0 stub_state))"
    by blast
  with r0 have a: "learning_rate (args_of (epochs_loop ?T main_process [0..<3] stub_state)) = 1 / 250000"
    by simp
  have b: "adjust_rates (trace (epochs_loop ?T main_process [0..<3] stub_state)) =
             [1 / 250000, 1 / 250000, 1 / 250000]"
    by code_simp
  have c: "optimizer_lr (world (epochs_loop ?T main_process [0..<3] stub_state)) = 1 / 500000"
    by code_simp
  from a b c show ?thesis by (intro conjI)
qed

section \<open>When the scheduler is advanced\<close>

lemma optim_steps_append: "optim_steps (xs @ ys) = optim_steps xs @ optim_steps ys"
  by (simp add: optim_steps_def)

lemma batch_events_counts:
  "count_list (concat (map (\<lambda>i. OptimStep epoch i #
       (if tst then [AdjustLR e r False, SchedulerStep] else [])) js)) SchedulerStep =
     (if tst then length js else 0)"
  "length (optim_steps (concat (map (\<lambda>i. OptimStep epoch i #
       (if tst then [AdjustLR e r False, SchedulerStep] else [])) js))) = length js"
  by (induction js) (auto simp: optim_steps_def)

lemma run_epoch_scheduler_steps:
  "count_list (trace (run_epoch T p epoch s)) SchedulerStep =
     count_list (trace s) SchedulerStep + (if lradj (args_of s) = ''TST'' then train_steps T else 0)"
  by (simp add: run_epoch_trace train_batches_trace batch_events_counts)

lemma run_epoch_optim_steps:
  "length (optim_steps (trace (run_epoch T p epoch s))) =
     length (optim_steps (trace s)) + train_steps T"
  by (simp add: run_epoch_trace train_batches_trace batch_events_counts optim_steps_append)
     (simp add: optim_steps_def)

lemma lr_adjustment_scheduler_steps:
  "count_list (trace (lr_adjustment T epoch s)) SchedulerStep =
     count_list (trace s) SchedulerStep + (if lradj (args_of s) = ''COS'' then 1 else 0)"
  by (simp add: lr_adjustment_trace)

lemma lr_adjustment_optim_steps:
  "optim_steps (trace (lr_adjustment T epoch s)) = optim_steps (trace s)"
  by (simp add: lr_adjustment_trace optim_steps_append) (simp add: optim_steps_def)

lemma epochs_loop_scheduler_steps_other:
  "lradj (args_of s) \<noteq> ''TST'' \<Longrightarrow> lradj (args_of s) \<noteq> ''COS'' \<Longrightarrow>
   count_list (trace (epochs_loop T p es s)) SchedulerStep = count_list (trace s) SchedulerStep"
  by (induction es arbitrary: s)
     (simp_all add: Let_def run_epoch_scheduler_steps lr_adjustment_scheduler_steps
        lr_adjustment_lradj run_epoch_args)

lemma epochs_loop_scheduler_steps_TST:
  "lradj (args_of s) = ''TST'' \<Longrightarrow>
   count_list (trace (epochs_loop T p es s)) SchedulerStep + length (optim_steps (trace s)) =
   count_list (trace s) SchedulerStep + length (optim_steps (trace (epochs_loop T p es s)))"
proof (induction es arbitrary: s)
  case Nil
  show ?case by simp
next
  case (Cons epoch es)
  let ?s1 = "run_epoch T p epoch s"
  let ?s2 = "lr_adjustment T epoch ?s1"
  show ?case
  proof (cases "early_stop T (world ?s1)")
    case True
    with Cons.prems show ?thesis
      by (simp add: Let_def run_epoch_scheduler_steps run_epoch_optim_steps)
  next
    case False
    from Cons.prems have "lradj (args_of ?s2) = ''TST''"
      by (simp add: lr_adjustment_lradj run_epoch_args)
    then have "count_list (trace (epochs_loop T p es ?s2)) SchedulerStep + length (optim_steps (trace ?s2)) =
       count_list (trace ?s2) SchedulerStep + length (optim_steps (trace (epochs_loop T p es ?s2)))"
      by (rule Cons.IH)
    with Cons.prems False show ?thesis
      by (simp add: Let_def run_epoch_scheduler_steps run_epoch_optim_steps
          lr_adjustment_scheduler_steps lr_adjustment_optim_steps run_epoch_args)
  qed
qed

text \<open>
  C2, as the code has it. The batch loop of an epoch makes, for \<open>lradj = TST\<close>, the calls
  optimizer step, \<^verbatim>\<open>adjust_learning_rate\<close>, \<^verbatim>\<open>scheduler.step()\<close> for every batch in turn,
  and for every other \<open>lradj\<close> the optimizer steps alone. The adjustment at the end of an
  epoch that did not stop calls \<^verbatim>\<open>scheduler.step()\<close> for \<open>COS\<close> only. Over any number
  of epochs, a \<open>TST\<close> run advances the scheduler exactly as often as it steps the
  optimizer, and a run whose \<open>lradj\<close> is neither \<open>TST\<close> nor \<open>COS\<close> (the default
  \<open>type1\<close> among them) never advances it.
\<close>

theorem scheduler_stepped_per_batch_only_for_TST:
  "trace (train_batches T epoch s) =
     trace s @ concat (map (\<lambda>i. OptimStep epoch i #
       (if lradj (args_of s) = ''TST''
        then [AdjustLR (epoch + 1) (learning_rate (args_of s)) False, SchedulerStep] else []))
       [0..<train_steps T]) \<and>
   trace (lr_adjustment T epoch s) =
     trace s @
     (if lradj (args_of s) = ''TST'' then []
      else if lradj (args_of s) = ''COS'' then [SchedulerStep]
      else [AdjustLR (epoch + 1) (learning_rate (args_of (lr_adjustment T epoch s))) True]) \<and>
   (lradj (args_of s) = ''TST'' \<longrightarrow>
      count_list (trace (epochs_loop T p es s)) SchedulerStep + length (optim_steps (trace s)) =
      count_list (trace s) SchedulerStep + length (optim_steps (trace (epochs_loop T p es s)))) \<and>
   (lradj (args_of s) \<noteq> ''TST'' \<and> lradj (args_of s) \<noteq> ''COS'' \<longrightarrow>
      count_list (trace (epochs_loop T p es s)) SchedulerStep = count_list (trace s) SchedulerStep)"
  by (simp add: train_batches_trace lr_adjustment_trace epochs_loop_scheduler_steps_TST
      epochs_loop_scheduler_steps_other)

text \<open>
  A \<open>TST\<close> epoch of two batches, and three epochs of the default policy without a single
  scheduler step.
\<close>

theorem scheduler_stepped_per_batch_only_for_TST_witness:
  "trace (train_batches (stub_trainer 2 5) 0 (stub_state\<lparr>args_of := (args_of stub_state)\<lparr>lradj := ''TST''\<rparr>\<rparr>)) =
     [OptimStep 0 0, AdjustLR 1 (1 / 10000) False, SchedulerStep,
      OptimStep 0 1, AdjustLR 1 (1 / 10000) False, SchedulerStep] \<and>
   count_list (trace (epochs_loop (stub_trainer 2 5) main_process [0..<3] stub_state)) SchedulerStep = 0"
proof -
  let ?T = "stub_trainer 2 5"
  let ?s = "stub_state\<lparr>args_of := (args_of stub_state)\<lparr>lradj := ''TST''\<rparr>\<rparr>"
  have h: "lradj (args_of stub_state) \<noteq> ''TST'' \<and> lradj (args_of stub_state) \<noteq> ''COS''"
    by (simp add: stub_state_def parse_args_def)
  have e: "trace stub_state @ concat (map (\<lambda>i. OptimStep 0 i #
       (if lradj (args_of ?s) = ''TST''
        then [AdjustLR (0 + 1) (learning_rate (args_of ?s)) False, SchedulerStep] else []))
       [0..<train_steps ?T]) =
     [OptimStep 0 0, AdjustLR 1 (1 / 10000) False, SchedulerStep,
      OptimStep 0 1, AdjustLR 1 (1 / 10000) False, SchedulerStep :: (rat, int) event]"
    by code_simp
  have t: "trace ?s = trace stub_state" by simp
  from scheduler_stepped_per_batch_only_for_TST [of ?T 0 ?s main_process "[0..<3]", THEN conjunct1] e
  have a: "trace (train_batches ?T 0 ?s) =
     [OptimStep 0 0, AdjustLR 1 (1 / 10000) False, SchedulerStep,
      OptimStep 0 1, AdjustLR 1 (1 / 10000) False, SchedulerStep]"
    by (simp only: t)
  from scheduler_stepped_per_batch_only_for_TST [of ?T 0 stub_state main_process "[0..<3]",
      THEN conjunct2, THEN conjunct2, THEN conjunct2, THEN mp, OF h]
  have "count_list (trace (epochs_loop ?T main_process [0..<3] stub_state)) SchedulerStep = 0"
    by (simp add: stub_state_def)
  with a show ?thesis by (intro conjI)
qed

text \<open>
  The default configuration (\<open>lradj = type1\<close>) constructs the one-cycle scheduler, and in
  a run of two epochs with two batches each no optimizer step is followed by a scheduler
  step.
\<close>

theorem default_policy_never_steps_scheduler_counterexample:
  "lradj (parse_args ''TimeLLM'' ''run'') = ''type1'' \<and>
   select_scheduler (parse_args ''TimeLLM'' ''run'') = OneCycleLR \<and>
   stub_run ((parse_args ''TimeLLM'' ''run'')\<lparr>train_epochs := 2\<rparr>) main_process =
     (None,
      \<lparr>args_of = (parse_args ''TimeLLM'' ''run'')\<lparr>train_epochs := 2, learning_rate := 1 / 250000\<rparr>,
       world = \<lparr>optimizer_lr = 1 / 500000, scheduler_steps = 0, observations = 2\<rparr>,
       trace = [StartRun, LogParams, Makedirs,
                OptimStep 0 0, OptimStep 0 1, LogMetrics 0, EarlyStopping 0, AdjustLR 1 (1 / 250000) True,
                OptimStep 1 0, OptimStep 1 1, LogMetrics 1, EarlyStopping 1, AdjustLR 2 (1 / 250000) True,
                WaitForEveryone, LogStateDict [(''mapping.weight'', 7), (''head.bias'', 9)], DelFiles]\<rparr>)"
  by code_simp

section \<open>The whole run: configuration and trace\<close>

lemma save_scaler_args: "args_of (snd (save_scaler E s)) = args_of s"
  by (simp add: save_scaler_def Let_def emit_simps split: option.splits)

lemma save_scaler_trace: "set (trace s) \<subseteq> set (trace (snd (save_scaler E s)))"
  by (auto simp: save_scaler_def Let_def emit_simps split: option.splits)

lemma export_artifacts_args: "args_of (snd (export_artifacts E s)) = args_of s"
proof (cases "export_state_dict (unwrap_model E (world s))")
  case (Inl e)
  then show ?thesis by (simp add: export_artifacts_def)
next
  case (Inr sd)
  obtain r s2 where r: "save_scaler E (emit (LogStateDict sd) s) = (r, s2)" by force
  then have "args_of s2 = args_of s"
    using save_scaler_args [of E "emit (LogStateDict sd) s"] by (simp add: emit_simps)
  with Inr r show ?thesis
    by (simp add: export_artifacts_def Let_def emit_simps split: option.splits)
qed

lemma export_artifacts_trace: "set (trace s) \<subseteq> set (trace (snd (export_artifacts E s)))"
proof (cases "export_state_dict (unwrap_model E (world s))")
  case (Inl e)
  then show ?thesis by (simp add: export_artifacts_def)
next
  case (Inr sd)
  obtain r s2 where r: "save_scaler E (emit (LogStateDict sd) s) = (r, s2)" by force
  then have "set (trace s) \<subseteq> set (trace s2)"
    using save_scaler_trace [of "emit (LogStateDict sd) s" E] by (auto simp: emit_simps)
  with Inr r show ?thesis
    by (auto simp: export_artifacts_def Let_def emit_simps split: option.splits)
qed

lemma lr_adjustment_trace_mono: "set (trace s) \<subseteq> set (trace (lr_adjustment T epoch s))"
  by (simp add: lr_adjustment_trace)

lemma run_epoch_trace_mono: "set (trace s) \<subseteq> set (trace (run_epoch T p epoch s))"
  by (auto simp: run_epoch_trace train_batches_trace)

lemma epochs_loop_trace_mono: "set (trace s) \<subseteq> set (trace (epochs_loop T p es s))"
proof (induction es arbitrary: s)
  case Nil
  show ?case by simp
next
  case (Cons epoch es)
  have "set (trace s) \<subseteq> set (trace (lr_adjustment T epoch (run_epoch T p epoch s)))"
    using run_epoch_trace_mono lr_adjustment_trace_mono by (rule subset_trans)
  also have "\<dots> \<subseteq> set (trace (epochs_loop T p es (lr_adjustment T epoch (run_epoch T p epoch s))))"
    by (rule Cons.IH)
  finally show ?case using run_epoch_trace_mono [of s T p epoch] by (simp add: Let_def)
qed

lemma epochs_loop_first_step:
  assumes "0 < n" and "0 < train_steps T"
  shows "OptimStep 0 0 \<in> set (trace (epochs_loop T p [0..<n] s))"
proof -
  from assms(2) have "(0::nat) \<in> set [0..<train_steps T]" by simp
  then have "OptimStep 0 0 \<in> set (trace (run_epoch T p 0 s))"
    by (force simp: run_epoch_trace train_batches_trace)
  moreover from assms(1) have "[0..<n] = 0 # [1..<n]" by (simp add: upt_conv_Cons)
  moreover note epochs_loop_trace_mono [of "lr_adjustment T 0 (run_epoch T p 0 s)" T p "[1..<n]"]
    lr_adjustment_trace_mono [of "run_epoch T p 0 s" T 0]
  ultimately show ?thesis by (auto simp: Let_def simp del: upt_Suc)
qed

text \<open>
  An experiment either ends with the exception of the model selection or of a constructor,
  before its epoch loop, or runs the epoch loop, the barrier and the gated export from the
  state the constructors leave.
\<close>

lemma run_experiment_cases:
  obtains (raised) e s1 where "run_experiment T E p s = (Some e, s1)"
      and "args_of s1 = args_of s" and "set (trace s) \<subseteq> set (trace s1)"
      and "set (trace s1) \<subseteq> insert Makedirs (set (trace s))"
    | (built) s2 where "args_of s2 = args_of s" and "set (trace s) \<subseteq> set (trace s2)"
      and "run_experiment T E p s =
           (if is_local_main_process p
            then export_artifacts E
                   (emit WaitForEveryone (epochs_loop T p [0..<nat (train_epochs (args_of s))] s2))
            else (None, emit WaitForEveryone (epochs_loop T p [0..<nat (train_epochs (args_of s))] s2)))"
proof (cases "select_model (args_of s)")
  case (Inl e)
  then have "run_experiment T E p s = (Some e, s)" by (simp add: run_experiment_def)
  then show thesis by (rule raised) auto
next
  case kind: (Inr kind)
  show thesis
  proof (cases "build_model T kind (args_of s) (world s)")
    case (Inl e)
    with kind have "run_experiment T E p s = (Some e, s)" by (simp add: run_experiment_def)
    then show thesis by (rule raised) auto
  next
    case w1: (Inr w1)
    define s1 where "s1 = (if is_local_main_process p then emit Makedirs (s\<lparr>world := w1\<rparr>)
                          else s\<lparr>world := w1\<rparr>)"
    have s1: "args_of s1 = args_of s" "set (trace s) \<subseteq> set (trace s1)"
      "set (trace s1) \<subseteq> insert Makedirs (set (trace s))"
      by (auto simp: s1_def emit_simps)
    show thesis
    proof (cases "build_optimizer T (select_scheduler (args_of s)) (args_of s) w1")
      case (Inl e)
      with kind w1 have "run_experiment T E p s = (Some e, s1)"
        by (auto simp: run_experiment_def s1_def Let_def emit_simps)
      then show thesis using s1 by (rule raised)
    next
      case (Inr w2)
      define s2 where "s2 = s1\<lparr>world := w2\<rparr>"
      have "args_of s2 = args_of s" "set (trace s) \<subseteq> set (trace s2)"
        using s1 by (simp_all add: s2_def)
      moreover from kind w1 Inr have "run_experiment T E p s =
           (if is_local_main_process p
            then export_artifacts E
                   (emit WaitForEveryone (epochs_loop T p [0..<nat (train_epochs (args_of s))] s2))
            else (None, emit WaitForEveryone (epochs_loop T p [0..<nat (train_epochs (args_of s))] s2)))"
        by (auto simp: run_experiment_def s1_def s2_def Let_def emit_simps)
      ultimately show thesis by (rule built)
    qed
  qed
qed

lemma run_experiment_args:
  "(args_of (snd (run_experiment T E p s)))\<lparr>learning_rate := learning_rate (args_of s)\<rparr> = args_of s"
proof (cases rule: run_experiment_cases [of T E p s])
  case (raised e s1)
  then show ?thesis by simp
next
  case (built s2)
  have "(args_of (epochs_loop T p [0..<nat (train_epochs (args_of s))] s2))
          \<lparr>learning_rate := learning_rate (args_of s2)\<rparr> = args_of s2"
    by (rule epochs_loop_args_but_lr)
  with built(1) show ?thesis
    by (simp add: built(3) emit_simps export_artifacts_args)
qed

lemma run_experiment_args_fixed:
  assumes "lradj (args_of s) = ''TST'' \<or> lradj (args_of s) = ''COS''"
  shows "args_of (snd (run_experiment T E p s)) = args_of s"
proof (cases rule: run_experiment_cases [of T E p s])
  case (raised e s1)
  then show ?thesis by simp
next
  case (built s2)
  from assms built(1) have "args_of (epochs_loop T p [0..<nat (train_epochs (args_of s))] s2) = args_of s2"
    by (intro epochs_loop_args_fixed) auto
  with built(1) show ?thesis
    by (simp add: built(3) emit_simps export_artifacts_args)
qed

lemma run_experiment_trace_mono: "set (trace s) \<subseteq> set (trace (snd (run_experiment T E p s)))"
proof (cases rule: run_experiment_cases [of T E p s])
  case (raised e s1)
  then show ?thesis by simp
next
  case (built s2)
  let ?s4 = "emit WaitForEveryone (epochs_loop T p [0..<nat (train_epochs (args_of s))] s2)"
  note built(2)
  also have "set (trace s2) \<subseteq> set (trace ?s4)"
    using epochs_loop_trace_mono [of s2 T p] by (auto simp: emit_simps)
  finally have m: "set (trace s) \<subseteq> set (trace ?s4)" .
  also have "\<dots> \<subseteq> set (trace (snd (export_artifacts E ?s4)))"
    by (rule export_artifacts_trace)
  finally show ?thesis using m by (simp add: built(3))
qed

text \<open>
  An experiment that ends with the exception of the selection or of a constructor has made
  no training step of its own.
\<close>

lemma run_experiment_raised_before_training:
  assumes "select_model (args_of s) = Inl e
           \<or> (\<exists>kind. select_model (args_of s) = Inr kind \<and>
                 build_model T kind (args_of s) (world s) = Inl e)"
  shows "fst (run_experiment T E p s) = Some e \<and> trace (snd (run_experiment T E p s)) = trace s"
  using assms by (auto simp: run_experiment_def)

lemma run_experiments_args:
  "(args_of (snd (run_experiments T E p iis s)))\<lparr>learning_rate := learning_rate (args_of s)\<rparr> = args_of s"
proof (induction iis arbitrary: s)
  case Nil
  show ?case by simp
next
  case (Cons ii iis)
  obtain r s1 where r: "run_experiment T E p s = (r, s1)" by force
  with run_experiment_args [where T = T and E = E and p = p and s = s]
  have a1: "(args_of s1)\<lparr>learning_rate := learning_rate (args_of s)\<rparr> = args_of s" by simp
  show ?case
  proof (cases r)
    case (Some e)
    with r a1 show ?thesis by simp
  next
    case None
    have "(args_of (snd (run_experiments T E p iis s1)))\<lparr>learning_rate := learning_rate (args_of s)\<rparr> =
          ((args_of (snd (run_experiments T E p iis s1)))\<lparr>learning_rate := learning_rate (args_of s1)\<rparr>)
            \<lparr>learning_rate := learning_rate (args_of s)\<rparr>"
      by simp
    also have "\<dots> = (args_of s1)\<lparr>learning_rate := learning_rate (args_of s)\<rparr>"
      by (simp only: Cons.IH)
    finally show ?thesis using None r a1 by simp
  qed
qed

lemma run_experiments_args_fixed:
  "lradj (args_of s) = ''TST'' \<or> lradj (args_of s) = ''COS'' \<Longrightarrow>
   args_of (snd (run_experiments T E p iis s)) = args_of s"
proof (induction iis arbitrary: s)
  case Nil
  show ?case by simp
next
  case (Cons ii iis)
  obtain r s1 where r: "run_experiment T E p s = (r, s1)" by force
  with run_experiment_args_fixed [OF Cons.prems, where T = T and E = E and p = p] have a1: "args_of s1 = args_of s" by simp
  with Cons.prems have "args_of (snd (run_experiments T E p iis s1)) = args_of s1"
    by (intro Cons.IH) simp
  with r a1 show ?case by (cases r) simp_all
qed

lemma run_experiments_trace_mono: "set (trace s) \<subseteq> set (trace (snd (run_experiments T E p iis s)))"
proof (induction iis arbitrary: s)
  case Nil
  show ?case by simp
next
  case (Cons ii iis)
  obtain r s1 where r: "run_experiment T E p s = (r, s1)" by force
  with run_experiment_trace_mono [where T = T and E = E and p = p and s = s] have m: "set (trace s) \<subseteq> set (trace s1)" by simp
  also have "\<dots> \<subseteq> set (trace (snd (run_experiments T E p iis s1)))" by (rule Cons.IH)
  finally show ?case using r m by (cases r) simp_all
qed

lemma main_eq:
  "main T E p a w =
     run_experiments T E p [0..<nat (itr a)]
       \<lparr>args_of = a, world = w,
        trace = (if is_main_process p then [StartRun] else []) @
                (if is_local_main_process p then [LogParams] else [])\<rparr>"
  by (simp add: main_def Let_def emit_def)

text \<open>
  C6, as the code has it. Whatever the external calls do, at the end of the run, and after
  any number of epochs of the loop, the configuration record equals the initial one in
  every field other than \<open>learning_rate\<close>; for \<open>lradj\<close> \<open>TST\<close> or \<open>COS\<close> the whole
  record is unchanged at the end of the run. The batches, evaluations and early-stopping
  call of an epoch leave the record as it is; the only assignment is that of the
  learning-rate adjustment at the end of epoch 0 for an \<open>lradj\<close> other than \<open>TST\<close> and
  \<open>COS\<close>, which stores the optimizer's current rate.
\<close>

theorem only_learning_rate_is_reassigned:
  "(args_of (snd (main T E p a w)))\<lparr>learning_rate := learning_rate a\<rparr> = a \<and>
   (lradj a = ''TST'' \<or> lradj a = ''COS'' \<longrightarrow> args_of (snd (main T E p a w)) = a) \<and>
   (args_of (epochs_loop T p es s))\<lparr>learning_rate := learning_rate (args_of s)\<rparr> = args_of s \<and>
   args_of (run_epoch T p epoch s) = args_of s \<and>
   args_of (lr_adjustment T epoch s) =
     (if lradj (args_of s) \<noteq> ''TST'' \<and> lradj (args_of s) \<noteq> ''COS'' \<and> epoch = 0
      then (args_of s)\<lparr>learning_rate := current_lr T (world s)\<rparr> else args_of s)"
proof (intro conjI impI)
  obtain s2 where s2: "args_of s2 = a" "main T E p a w = run_experiments T E p [0..<nat (itr a)] s2"
    using main_eq [of T E p a w] by (metis process_state.select_convs(1))
  from run_experiments_args [where T = T and E = E and p = p and s = s2 and iis = "[0..<nat (itr a)]"]
  show "(args_of (snd (main T E p a w)))\<lparr>learning_rate := learning_rate a\<rparr> = a"
    by (simp add: s2)
  assume "lradj a = ''TST'' \<or> lradj a = ''COS''"
  with s2(1) have "lradj (args_of s2) = ''TST'' \<or> lradj (args_of s2) = ''COS''" by simp
  then have "args_of (snd (run_experiments T E p [0..<nat (itr a)] s2)) = args_of s2"
    by (rule run_experiments_args_fixed)
  then show "args_of (snd (main T E p a w)) = a" by (simp add: s2)
next
  show "(args_of (epochs_loop T p es s))\<lparr>learning_rate := learning_rate (args_of s)\<rparr> = args_of s"
    by (rule epochs_loop_args_but_lr)
  show "args_of (run_epoch T p epoch s) = args_of s" by (rule run_epoch_args)
  show "args_of (lr_adjustment T epoch s) =
     (if lradj (args_of s) \<noteq> ''TST'' \<and> lradj (args_of s) \<noteq> ''COS'' \<and> epoch = 0
      then (args_of s)\<lparr>learning_rate := current_lr T (world s)\<rparr> else args_of s)"
    by (rule lr_adjustment_args)
qed

text \<open>A \<open>COS\<close> run ends with the configuration it started with.\<close>

theorem only_learning_rate_is_reassigned_witness:
  "args_of (snd (stub_run ((parse_args ''TimeLLM'' ''run'')\<lparr>lradj := ''COS''\<rparr>) main_process)) =
     (parse_args ''TimeLLM'' ''run'')\<lparr>lradj := ''COS''\<rparr>"
proof -
  let ?a = "(parse_args ''TimeLLM'' ''run'')\<lparr>lradj := ''COS''\<rparr>"
  have h: "lradj ?a = ''TST'' \<or> lradj ?a = ''COS''" by simp
  from only_learning_rate_is_reassigned [where a = ?a, THEN conjunct2, THEN conjunct1, THEN mp, OF h]
  show ?thesis by (simp add: stub_run_def)
qed

text \<open>
  A default run of two epochs: the configuration is created with the learning rate
  \<open>1 / 10000\<close> and ends with \<open>1 / 250000\<close>, the optimizer's rate at the end of epoch 0.
\<close>

theorem configured_learning_rate_overwritten_counterexample:
  "learning_rate ((parse_args ''TimeLLM'' ''run'')\<lparr>train_epochs := 2\<rparr>) = 1 / 10000 \<and>
   learning_rate (args_of (snd (stub_run ((parse_args ''TimeLLM'' ''run'')\<lparr>train_epochs := 2\<rparr>) main_process))) =
     1 / 250000"
  by code_simp

section \<open>Unrecognized names\<close>

text \<open>
  C7, as the code has it. The model dispatch raises exactly for a name other than the
  three it knows. With such a name and at least one experiment to run, the program ends
  with \<open>ValueError\<close> when the only calls made are the start of the tracking run and the
  logging of the parameters: no training step precedes it. The learning-rate-policy name
  has no such check: the policy dispatch has no raising branch, and every name other than
  \<open>COS\<close>, recognized or not, selects the one-cycle scheduler.
\<close>

theorem unrecognized_model_fails_before_training:
  "(select_model a = Inl ValueError \<longleftrightarrow>
      model a \<noteq> ''Autoformer'' \<and> model a \<noteq> ''DLinear'' \<and> model a \<noteq> ''TimeLLM'') \<and>
   (select_model a = Inl ValueError \<and> 0 < itr a \<longrightarrow>
      main T E p a w =
        (Some ValueError,
         \<lparr>args_of = a, world = w,
          trace = (if is_main_process p then [StartRun] else []) @
                  (if is_local_main_process p then [LogParams] else [])\<rparr>)) \<and>
   (lradj a \<noteq> ''COS'' \<longrightarrow> select_scheduler a = OneCycleLR)"
proof (intro conjI impI)
  assume "lradj a \<noteq> ''COS''"
  then show "select_scheduler a = OneCycleLR" by (simp add: select_scheduler_def)
next
  show "select_model a = Inl ValueError \<longleftrightarrow>
      model a \<noteq> ''Autoformer'' \<and> model a \<noteq> ''DLinear'' \<and> model a \<noteq> ''TimeLLM''"
    by (simp add: select_model_def)
next
  assume h: "select_model a = Inl ValueError \<and> 0 < itr a"
  then have i: "[0..<nat (itr a)] = 0 # [1..<nat (itr a)]" by (simp add: upt_conv_Cons)
  from h show "main T E p a w =
        (Some ValueError,
         \<lparr>args_of = a, world = w,
          trace = (if is_main_process p then [StartRun] else []) @
                  (if is_local_main_process p then [LogParams] else [])\<rparr>)"
    by (simp add: main_def Let_def emit_def i run_experiment_def del: upt_Suc)
qed

text \<open>The model name \<open>Informer\<close> is not one of the three.\<close>

theorem unrecognized_model_fails_before_training_witness:
  "stub_run (parse_args ''Informer'' ''run'') main_process =
     (Some ValueError,
      \<lparr>args_of = parse_args ''Informer'' ''run'',
       world = \<lparr>optimizer_lr = 0, scheduler_steps = 0, observations = 0\<rparr>,
       trace = [StartRun, LogParams]\<rparr>)"
proof -
  let ?a = "parse_args ''Informer'' ''run''"
  have h: "select_model ?a = Inl ValueError \<and> 0 < itr ?a"
    by (simp add: select_model_def parse_args_def)
  from unrecognized_model_fails_before_training [where a = ?a and p = main_process,
      THEN conjunct2, THEN conjunct1, THEN mp, OF h]
  show ?thesis
    by (simp add: stub_run_def main_process_def is_main_process_def is_local_main_process_def)
qed

text \<open>
  A run with the unrecognized policy name \<open>bogus\<close>: no configuration error precedes the
  training, and both batches of the epoch are trained. (What the helper
  \<^verbatim>\<open>adjust_learning_rate\<close> does with the name at the end of the epoch is not decided in
  \<^verbatim>\<open>run_main.py\<close>; the stub returns.)
\<close>

theorem unrecognized_lradj_trains_counterexample:
  "stub_run ((parse_args ''TimeLLM'' ''run'')\<lparr>lradj := ''bogus'', train_epochs := 1\<rparr>) main_process =
     (None,
      \<lparr>args_of = (parse_args ''TimeLLM'' ''run'')
                  \<lparr>lradj := ''bogus'', train_epochs := 1, learning_rate := 1 / 250000\<rparr>,
       world = \<lparr>optimizer_lr = 1 / 500000, scheduler_steps = 0, observations = 1\<rparr>,
       trace = [StartRun, LogParams, Makedirs,
                OptimStep 0 0, OptimStep 0 1, LogMetrics 0, EarlyStopping 0, AdjustLR 1 (1 / 250000) True,
                WaitForEveryone, LogStateDict [(''mapping.weight'', 7), (''head.bias'', 9)], DelFiles]\<rparr>)"
  by code_simp

section \<open>Which processes export\<close>

lemma launch_Suc:
  "launch (Suc m) k =
     launch m k @ map (\<lambda>l. \<lparr>process_index = m * k + l, local_process_index = l\<rparr>) [0..<k]"
  by (simp add: launch_def)

lemma count_zero_upt: "length (filter (\<lambda>l. l = 0) [0..<k]) = (if k = 0 then 0 else 1)"
  by (induction k) auto

lemma local_main_processes: "length (filter is_local_main_process (launch m k)) = (if k = 0 then 0 else m)"
proof (induction m)
  case 0
  show ?case by (simp add: launch_def)
next
  case (Suc m)
  have "length (filter is_local_main_process
          (map (\<lambda>l. \<lparr>process_index = m * k + l, local_process_index = l\<rparr>) [0..<k])) =
        length (filter (\<lambda>l. l = 0) [0..<k])"
    by (simp add: filter_map o_def is_local_main_process_def)
  with Suc show ?case by (simp add: launch_Suc count_zero_upt)
qed

lemma main_processes: "length (filter is_main_process (launch m k)) = (if m = 0 \<or> k = 0 then 0 else 1)"
proof (induction m)
  case 0
  show ?case by (simp add: launch_def)
next
  case (Suc m)
  have "length (filter is_main_process
          (map (\<lambda>l. \<lparr>process_index = m * k + l, local_process_index = l\<rparr>) [0..<k])) =
        length (filter (\<lambda>l. m * k + l = 0) [0..<k])"
    by (simp add: filter_map o_def is_main_process_def)
  also have "\<dots> = (if m = 0 \<and> k \<noteq> 0 then 1 else 0)"
  proof (cases "m = 0")
    case True
    then show ?thesis by (simp add: count_zero_upt)
  next
    case False
    then have "filter (\<lambda>l. m * k + l = 0) [0..<k] = []" by (auto simp: filter_empty_conv)
    with False show ?thesis by simp
  qed
  finally show ?case using Suc by (auto simp: launch_Suc)
qed

lemma metric_export_gate:
  "LogMetrics epoch \<in> set (trace (run_epoch T p epoch s)) \<longleftrightarrow>
   is_local_main_process p \<or> LogMetrics epoch \<in> set (trace s)"
  by (auto simp: run_epoch_trace train_batches_trace)


text \<open>
  C1 on a group of two machines with one process each. Both processes are the main process
  of their machine, one of them is the main process of the group. The tracking run is
  started by that one alone, and both log the parameters, export the metrics of the epoch,
  export the checkpoint and clean up.
\<close>

theorem every_local_main_process_exports:
  "launch 2 1 = [\<lparr>process_index = 0, local_process_index = 0\<rparr>,
                 \<lparr>process_index = 1, local_process_index = 0\<rparr>] \<and>
   map is_main_process (launch 2 1) = [True, False] \<and>
   map is_local_main_process (launch 2 1) = [True, True] \<and>
   map (\<lambda>p. trace (snd (stub_run ((parse_args ''TimeLLM'' ''run'')\<lparr>train_epochs := 1\<rparr>) p))) (launch 2 1) =
     [[StartRun, LogParams, Makedirs,
       OptimStep 0 0, OptimStep 0 1, LogMetrics 0, EarlyStopping 0, AdjustLR 1 (1 / 250000) True,
       WaitForEveryone, LogStateDict [(''mapping.weight'', 7), (''head.bias'', 9)], DelFiles],
      [LogParams, Makedirs,
       OptimStep 0 0, OptimStep 0 1, LogMetrics 0, EarlyStopping 0, AdjustLR 1 (1 / 250000) True,
       WaitForEveryone, LogStateDict [(''mapping.weight'', 7), (''head.bias'', 9)], DelFiles]]"
  by code_simp

end
